theory Spec2Isabelle
  imports Main "HOL-Library.Word" "HOL-Library.Char_ord" "HOL-Library.List_Lexorder"
begin

unbundle bit_operations_syntax

section \<open>Errors\<close>

text \<open>
  Every exception the modelled code can raise is a value. \<open>RangeError\<close> is what
  \<^verbatim>\<open>Date.prototype.toISOString\<close> throws on an invalid date; \<open>SqliteError\<close> is what
  better-sqlite3 throws when a statement fails; \<open>TypeError\<close> is a call of something
  that is not a function; \<open>Error\<close> is \<^verbatim>\<open>new Error(message)\<close>; \<open>Rejected\<close> is the
  rejection of an adapter's promise.
\<close>

datatype error = RangeError | SqliteError | TypeError | Error string | Rejected

section \<open>utils/time.ts\<close>

subsection \<open>\<^verbatim>\<open>new Date(ms).toISOString()\<close>\<close>

text \<open>
  The ECMAScript date algorithms on an integral time value: the day number and the time
  within the day, the proleptic Gregorian date of a day number, and the ISO format with
  its expanded six-digit years outside 0..9999. A time value beyond 8.64e15 in magnitude
  is an invalid date, on which \<^verbatim>\<open>toISOString\<close> throws.
\<close>

definition digitChar :: "int \<Rightarrow> char" where
  "digitChar d = ''0123456789'' ! nat (d mod 10)"

fun padDigits :: "nat \<Rightarrow> int \<Rightarrow> string" where
  "padDigits 0 n = []"
| "padDigits (Suc k) n = padDigits k (n div 10) @ [digitChar n]"

definition civilFromDays :: "int \<Rightarrow> int \<times> int \<times> int" where
  "civilFromDays days =
     (let z = days + 719468;
          era = z div 146097;
          doe = z - era * 146097;
          yoe = (doe - doe div 1460 + doe div 36524 - doe div 146096) div 365;
          y = yoe + era * 400;
          doy = doe - (365 * yoe + yoe div 4 - yoe div 100);
          mp = (5 * doy + 2) div 153;
          d = doy - (153 * mp + 2) div 5 + 1;
          m = (if mp < 10 then mp + 3 else mp - 9)
      in (if m \<le> 2 then y + 1 else y, m, d))"

definition isoYear :: "int \<Rightarrow> string" where
  "isoYear y =
     (if 0 \<le> y \<and> y \<le> 9999 then padDigits 4 y
      else (if y < 0 then ''-'' else ''+'') @ padDigits 6 \<bar>y\<bar>)"

definition toISOString :: "int \<Rightarrow> error + string" where
  "toISOString ms =
     (if \<bar>ms\<bar> > 8640000000000000 then Inl RangeError
      else
        (let days = ms div 86400000;
             t = ms mod 86400000;
             (y, m, d) = civilFromDays days
         in Inr (isoYear y @ ''-'' @ padDigits 2 m @ ''-'' @ padDigits 2 d @ ''T''
                 @ padDigits 2 (t div 3600000) @ '':''
                 @ padDigits 2 (t div 60000 mod 60) @ '':''
                 @ padDigits 2 (t div 1000 mod 60) @ ''.''
                 @ padDigits 3 (t mod 1000) @ ''Z'')))"

subsection \<open>\<^verbatim>\<open>toDateTimeString\<close>\<close>

text \<open>
  \<^verbatim>\<open>const ms = timestamp > 1_000_000_000_000 ? timestamp : timestamp * 1000;\<close>
  \<^verbatim>\<open>return new Date(ms).toISOString();\<close>

  The timestamp is an integral number (an epoch count); on these the product with 1000
  is exact wherever the date is valid.
\<close>

definition epochMillis :: "int \<Rightarrow> int" where
  "epochMillis timestamp =
     (if timestamp > 1000000000000 then timestamp else timestamp * 1000)"

definition toDateTimeString :: "int \<Rightarrow> error + string" where
  "toDateTimeString timestamp = toISOString (epochMillis timestamp)"

section \<open>types.ts\<close>

text \<open>
  \<^verbatim>\<open>MessageContent\<close>, \<^verbatim>\<open>ToolResult\<close> and \<^verbatim>\<open>ParsedMessage\<close> are tagged unions and an
  interface of the source; an optional field is an \<open>option\<close>. The fields of a
  constructor stand in the order of the declaration. \<^verbatim>\<open>Record<string, string>\<close> is the
  list of its entries in \<^verbatim>\<open>Object.entries\<close> order.
\<close>

datatype MessageContent =
    Text string
  | Code string "string option"
  | Markdown string
  | Json string
  | Diff string string "string option"
  | Html string

record ToolResult =
  tr_output :: string
  tr_isError :: bool
  tr_toolCallId :: "string option"

datatype InfoStyle = StyleDefault | StyleError

datatype ParsedMessage =
    User (timestamp: string) "MessageContent list"
  | AssistantText (timestamp: string) "MessageContent list"
  | AssistantThinking (timestamp: string) string
  | ToolUse (timestamp: string) string "string option" "(string \<times> string) list"
      "ToolResult list"
  | ToolResultMsg (timestamp: string) "string option" "string option" "MessageContent list"
      bool
  | Info (timestamp: string) string "string option" "MessageContent option" InfoStyle

text \<open>
  A JavaScript string is falsy exactly when it is empty, and \<^verbatim>\<open>undefined\<close> is falsy.
\<close>

definition truthy :: "string option \<Rightarrow> bool" where
  "truthy s = (case s of None \<Rightarrow> False | Some v \<Rightarrow> v \<noteq> [])"

section \<open>The tool-call correlator\<close>

text \<open>
  \<^verbatim>\<open>ClaudeSessionParser.connectToolResultsToToolUse\<close> and
  \<^verbatim>\<open>CodexSessionParser.connectToolOutputsToToolCalls\<close> have the same body, statement by
  statement; one model serves both. \<^verbatim>\<open>JSON.stringify\<close> of an output array is the
  parameter \<open>stringify\<close>: the serialisation depends on the key order in which each
  parser built its blocks.
\<close>

type_synonym callIdMap = "string \<Rightarrow> ParsedMessage list option"

text \<open>
  The first pass: \<^verbatim>\<open>toolResultsByCallId\<close>, filled in list order.
\<close>

fun collectToolResults :: "ParsedMessage list \<Rightarrow> callIdMap \<Rightarrow> callIdMap" where
  "collectToolResults [] m = m"
| "collectToolResults (msg # rest) m =
     (case msg of
        ToolResultMsg ts tn callId out err \<Rightarrow>
          (if truthy callId
           then collectToolResults rest
                  (m(the callId \<mapsto> (case m (the callId) of None \<Rightarrow> [] | Some l \<Rightarrow> l) @ [msg]))
           else collectToolResults rest m)
      | _ \<Rightarrow> collectToolResults rest m)"

text \<open>
  The object literal built for each matched result:
  \<^verbatim>\<open>output: toolResult.output?.[0]?.type === 'code' ? toolResult.output[0].code : JSON.stringify(toolResult.output)\<close>.
  The map holds \<^verbatim>\<open>tool_result\<close> messages only; the other cases cannot occur and are
  given the fallback.
\<close>

fun toToolResult :: "(MessageContent list \<Rightarrow> string) \<Rightarrow> ParsedMessage \<Rightarrow> ToolResult" where
  "toToolResult stringify (ToolResultMsg ts tn callId out err) =
     \<lparr> tr_output = (case out of Code c lang # _ \<Rightarrow> c | _ \<Rightarrow> stringify out),
       tr_isError = err,
       tr_toolCallId = callId \<rparr>"
| "toToolResult stringify _ =
     \<lparr> tr_output = stringify [], tr_isError = False, tr_toolCallId = None \<rparr>"

text \<open>
  \<^verbatim>\<open>rawMessages.some(m => m.type === 'tool_use' && m.toolCallId === callId)\<close>: strict
  equality, under which two absent identifiers are equal.
\<close>

fun isToolUseWithId :: "string option \<Rightarrow> ParsedMessage \<Rightarrow> bool" where
  "isToolUseWithId callId (ToolUse ts name cid inp res) = (cid = callId)"
| "isToolUseWithId callId _ = False"

definition hasMatchingToolUse :: "ParsedMessage list \<Rightarrow> string option \<Rightarrow> bool" where
  "hasMatchingToolUse rawMessages callId = list_ex (isToolUseWithId callId) rawMessages"

text \<open>
  The second pass: the \<^verbatim>\<open>for\<close> loop over \<^verbatim>\<open>rawMessages\<close>, with the set
  \<^verbatim>\<open>connectedCallIds\<close> and the array \<^verbatim>\<open>result\<close> as its state.
\<close>

fun connectLoop ::
  "(MessageContent list \<Rightarrow> string) \<Rightarrow> callIdMap \<Rightarrow> ParsedMessage list \<Rightarrow>
   ParsedMessage list \<Rightarrow> string set \<Rightarrow> ParsedMessage list \<Rightarrow> ParsedMessage list" where
  "connectLoop stringify byId rawMessages [] connected result = result"
| "connectLoop stringify byId rawMessages (msg # rest) connected result =
     (case msg of
        ToolUse ts name callId inp res \<Rightarrow>
          (if truthy callId \<and> byId (the callId) \<noteq> None
           then connectLoop stringify byId rawMessages rest (insert (the callId) connected)
                  (result @ [ToolUse ts name callId inp
                      (map (toToolResult stringify)
                         (case byId (the callId) of None \<Rightarrow> [] | Some l \<Rightarrow> l))])
           else connectLoop stringify byId rawMessages rest connected (result @ [msg]))
      | ToolResultMsg ts tn callId out err \<Rightarrow>
          (if \<not> truthy callId \<or> the callId \<notin> connected
           then (if \<not> hasMatchingToolUse rawMessages callId
                 then connectLoop stringify byId rawMessages rest connected (result @ [msg])
                 else connectLoop stringify byId rawMessages rest connected result)
           else connectLoop stringify byId rawMessages rest connected result)
      | _ \<Rightarrow> connectLoop stringify byId rawMessages rest connected (result @ [msg]))"

definition connectToolResultsToToolUse ::
  "(MessageContent list \<Rightarrow> string) \<Rightarrow> ParsedMessage list \<Rightarrow> ParsedMessage list" where
  "connectToolResultsToToolUse stringify rawMessages =
     connectLoop stringify (collectToolResults rawMessages Map.empty) rawMessages
       rawMessages {} []"

text \<open>The identifier a tool message carries; other messages carry none.\<close>

fun toolCallIdOf :: "ParsedMessage \<Rightarrow> string option" where
  "toolCallIdOf (ToolUse ts name callId inp res) = callId"
| "toolCallIdOf (ToolResultMsg ts tn callId out err) = callId"
| "toolCallIdOf _ = None"

fun isToolResult :: "ParsedMessage \<Rightarrow> bool" where
  "isToolResult (ToolResultMsg ts tn callId out err) = True"
| "isToolResult _ = False"

text \<open>
  What the second pass emits for one message, stated without the loop state: the set
  \<^verbatim>\<open>connectedCallIds\<close> only ever holds identifiers of \<^verbatim>\<open>tool_use\<close> messages of the
  list, so the test on it is subsumed by \<^verbatim>\<open>hasMatchingToolUse\<close> (lemma
  \<open>connectLoop_emitted\<close> below).
\<close>

fun emitted ::
  "(MessageContent list \<Rightarrow> string) \<Rightarrow> callIdMap \<Rightarrow> ParsedMessage list \<Rightarrow>
   ParsedMessage \<Rightarrow> ParsedMessage list" where
  "emitted stringify byId rawMessages (ToolUse ts name callId inp res) =
     (if truthy callId \<and> byId (the callId) \<noteq> None
      then [ToolUse ts name callId inp
              (map (toToolResult stringify)
                 (case byId (the callId) of None \<Rightarrow> [] | Some l \<Rightarrow> l))]
      else [ToolUse ts name callId inp res])"
| "emitted stringify byId rawMessages (ToolResultMsg ts tn callId out err) =
     (if hasMatchingToolUse rawMessages callId then []
      else [ToolResultMsg ts tn callId out err])"
| "emitted stringify byId rawMessages msg = [msg]"

definition resultsFor :: "string \<Rightarrow> ParsedMessage list \<Rightarrow> ParsedMessage list" where
  "resultsFor c msgs =
     filter (\<lambda>x. isToolResult x \<and> toolCallIdOf x = Some c \<and> c \<noteq> []) msgs"

section \<open>repository/SearchRepository.ts\<close>

record SearchEntry =
  se_content :: string
  se_sessionId :: string
  se_projectId :: string
  se_cardType :: string
  se_sessionTitle :: string
  se_projectName :: string
  se_timestamp :: string

record 'r SearchResult =
  sr_content :: string
  sr_sessionId :: string
  sr_projectId :: string
  sr_cardType :: string
  sr_sessionTitle :: string
  sr_projectName :: string
  sr_timestamp :: string
  sr_score :: 'r

text \<open>
  The FTS5 engine behind the virtual table \<^verbatim>\<open>search_messages\<close> is not code of the
  repository. The model takes what the two \<^verbatim>\<open>SELECT\<close> statements use of it as
  parameters: whether \<^verbatim>\<open>MATCH\<close> accepts the query string, which rows it matches, the
  rank \<^verbatim>\<open>bm25(search_messages, 10.0, 0.0, 0.0, 0.0, 5.0, 2.0)\<close>, the displayed score
  \<^verbatim>\<open>ROUND(-bm25(...), 2)\<close> and \<^verbatim>\<open>highlight(search_messages, 0, '<mark>', '</mark>')\<close>.
\<close>

record 'r fts5 =
  ftsAccepts :: "string \<Rightarrow> bool"
  ftsMatch :: "string \<Rightarrow> SearchEntry \<Rightarrow> bool"
  bm25 :: "string \<Rightarrow> SearchEntry \<Rightarrow> 'r"
  score :: "string \<Rightarrow> SearchEntry \<Rightarrow> 'r"
  highlight :: "string \<Rightarrow> SearchEntry \<Rightarrow> string"

definition MAX_LIMIT :: int where
  "MAX_LIMIT = 100"

text \<open>
  \<^verbatim>\<open>String.prototype.trim\<close> on ASCII text: tab, line feed, vertical tab, form feed,
  carriage return and space are the white space.
\<close>

definition isWhiteSpace :: "char \<Rightarrow> bool" where
  "isWhiteSpace c = (c \<in> set [CHR 0x09, CHR 0x0A, CHR 0x0B, CHR 0x0C, CHR 0x0D, CHR 0x20])"

definition trim :: "string \<Rightarrow> string" where
  "trim s = rev (dropWhile isWhiteSpace (rev (dropWhile isWhiteSpace s)))"

text \<open>\<^verbatim>\<open>value.replace(/"/g, '""')\<close>\<close>

definition escapeFts5Value :: "string \<Rightarrow> string" where
  "escapeFts5Value v = concat (map (\<lambda>c. if c = CHR 0x22 then [CHR 0x22, CHR 0x22] else [c]) v)"

definition escapeFts5Query :: "string \<Rightarrow> string" where
  "escapeFts5Query query =
     (let trimmed = trim query
      in if trimmed = [] then [CHR 0x22, CHR 0x22]
         else [CHR 0x22] @ escapeFts5Value trimmed @ [CHR 0x22])"

text \<open>
  \<^verbatim>\<open>ORDER BY bm25(...), timestamp DESC\<close>: ascending rank, then descending timestamp
  (text comparison); rows equal in both keep their table order.
\<close>

definition rowBefore :: "('r::linorder) fts5 \<Rightarrow> string \<Rightarrow> SearchEntry \<Rightarrow> SearchEntry \<Rightarrow> bool" where
  "rowBefore eng q a b =
     (bm25 eng q a < bm25 eng q b
      \<or> (bm25 eng q a = bm25 eng q b \<and> se_timestamp b \<le> se_timestamp a))"

fun insertRow :: "('a \<Rightarrow> 'a \<Rightarrow> bool) \<Rightarrow> 'a \<Rightarrow> 'a list \<Rightarrow> 'a list" where
  "insertRow prec x [] = [x]"
| "insertRow prec x (y # ys) =
     (if prec x y then x # y # ys else y # insertRow prec x ys)"

fun orderBy :: "('a \<Rightarrow> 'a \<Rightarrow> bool) \<Rightarrow> 'a list \<Rightarrow> 'a list" where
  "orderBy prec [] = []"
| "orderBy prec (x # xs) = insertRow prec x (orderBy prec xs)"

text \<open>
  \<^verbatim>\<open>LIMIT ?\<close> in SQLite: a negative value means no upper bound on the number of rows
  returned (SQLite, \<^emph>\<open>SELECT\<close>, the LIMIT clause); a number bound by better-sqlite3
  that holds an integer is such a value.
\<close>

definition sqlLimit :: "int \<Rightarrow> 'a list \<Rightarrow> 'a list" where
  "sqlLimit n rows = (if n < 0 then rows else take (nat n) rows)"

definition toSearchResult :: "'r fts5 \<Rightarrow> string \<Rightarrow> SearchEntry \<Rightarrow> 'r SearchResult" where
  "toSearchResult eng q e =
     \<lparr> sr_content = highlight eng q e,
       sr_sessionId = se_sessionId e,
       sr_projectId = se_projectId e,
       sr_cardType = se_cardType e,
       sr_sessionTitle = se_sessionTitle e,
       sr_projectName = se_projectName e,
       sr_timestamp = se_timestamp e,
       sr_score = score eng q e \<rparr>"

text \<open>
  \<^verbatim>\<open>search(query, limit = 50)\<close> and \<^verbatim>\<open>searchByProject(projectName, query, limit = 50)\<close>
  over the rows of \<^verbatim>\<open>search_messages\<close>. The limit is an integral number; \<open>None\<close> is
  the omitted argument. A query the engine rejects makes \<^verbatim>\<open>stmt.all\<close> throw.
\<close>

definition search ::
  "('r::linorder) fts5 \<Rightarrow> SearchEntry list \<Rightarrow> string \<Rightarrow> int option \<Rightarrow> error + 'r SearchResult list" where
  "search eng rows query limit =
     (let safeLimit = min (case limit of None \<Rightarrow> 50 | Some l \<Rightarrow> l) MAX_LIMIT;
          ftsQuery = escapeFts5Query query
      in if \<not> ftsAccepts eng ftsQuery then Inl SqliteError
         else Inr (map (toSearchResult eng ftsQuery)
                (sqlLimit safeLimit
                   (orderBy (rowBefore eng ftsQuery)
                      (filter (ftsMatch eng ftsQuery) rows)))))"

definition searchByProject ::
  "('r::linorder) fts5 \<Rightarrow> SearchEntry list \<Rightarrow> string \<Rightarrow> string \<Rightarrow> int option \<Rightarrow>
   error + 'r SearchResult list" where
  "searchByProject eng rows projectName query limit =
     (let safeLimit = min (case limit of None \<Rightarrow> 50 | Some l \<Rightarrow> l) MAX_LIMIT;
          ftsQuery = escapeFts5Query query
      in if \<not> ftsAccepts eng ftsQuery then Inl SqliteError
         else Inr (map (toSearchResult eng ftsQuery)
                (sqlLimit safeLimit
                   (orderBy (rowBefore eng ftsQuery)
                      (filter (\<lambda>e. ftsMatch eng ftsQuery e \<and> se_projectName e = projectName)
                         rows)))))"

text \<open>
  A small engine for evaluating the model: every query is accepted, a row matches when
  the phrase between the quotes occurs in its content, all ranks are equal.
\<close>

fun occursIn :: "string \<Rightarrow> string \<Rightarrow> bool" where
  "occursIn p [] = (p = [])"
| "occursIn p (c # cs) = (take (length p) (c # cs) = p \<or> occursIn p cs)"

definition substringEngine :: "nat fts5" where
  "substringEngine =
     \<lparr> ftsAccepts = (\<lambda>q. True),
       ftsMatch = (\<lambda>q e. occursIn (butlast (tl q)) (se_content e)),
       bm25 = (\<lambda>q e. 0),
       score = (\<lambda>q e. 0),
       highlight = (\<lambda>q e. se_content e) \<rparr>"

definition findmeEntry :: SearchEntry where
  "findmeEntry =
     \<lparr> se_content = ''findme item'',
       se_sessionId = ''session-1'',
       se_projectId = ''project-1'',
       se_cardType = ''assistant'',
       se_sessionTitle = ''Test Session'',
       se_projectName = ''test-project'',
       se_timestamp = ''2025-01-01T00:00:00Z'' \<rparr>"

section \<open>utils/uuid.ts\<close>

subsection \<open>\<^verbatim>\<open>createHash('sha1')\<close>\<close>

text \<open>
  SHA-1 (FIPS 180-4) over a list of bytes, as Node's \<^verbatim>\<open>crypto\<close> module computes it:
  the padded message is cut into blocks of 64 bytes, each block is expanded to a
  schedule of 80 words and run through 80 rounds, and the digest is the big-endian
  bytes of the five chaining words.
\<close>

type_synonym byte = "8 word"
type_synonym word32 = "32 word"

definition bytesOfWord32 :: "word32 \<Rightarrow> byte list" where
  "bytesOfWord32 w =
     [ucast (drop_bit 24 w), ucast (drop_bit 16 w), ucast (drop_bit 8 w), ucast w]"

fun word32OfBytes :: "byte list \<Rightarrow> word32" where
  "word32OfBytes (a # b # c # d # _) =
     push_bit 24 (ucast a) OR push_bit 16 (ucast b) OR push_bit 8 (ucast c) OR ucast d"
| "word32OfBytes _ = 0"

definition bytesOfLength :: "nat \<Rightarrow> byte list" where
  "bytesOfLength n =
     (let bits = (of_nat (8 * n) :: 64 word)
      in map (\<lambda>k. ucast (drop_bit (56 - 8 * k) bits)) [0..<8])"

definition sha1Pad :: "byte list \<Rightarrow> byte list" where
  "sha1Pad msg =
     msg @ [0x80] @ replicate ((119 - length msg mod 64) mod 64) 0 @ bytesOfLength (length msg)"

fun chunks :: "nat \<Rightarrow> 'a list \<Rightarrow> 'a list list" where
  "chunks 0 xs = []"
| "chunks (Suc n) xs = take 16 xs # chunks n (drop 16 xs)"

fun wordsOfBytes :: "nat \<Rightarrow> byte list \<Rightarrow> word32 list" where
  "wordsOfBytes 0 bs = []"
| "wordsOfBytes (Suc n) bs = word32OfBytes bs # wordsOfBytes n (drop 4 bs)"

fun schedule :: "nat \<Rightarrow> word32 list \<Rightarrow> word32 list" where
  "schedule 0 ws = ws"
| "schedule (Suc n) ws =
     (let k = length ws
      in schedule n
           (ws @ [word_rotl 1 (ws ! (k - 3) XOR ws ! (k - 8) XOR ws ! (k - 14) XOR ws ! (k - 16))]))"

definition sha1F :: "nat \<Rightarrow> word32 \<Rightarrow> word32 \<Rightarrow> word32 \<Rightarrow> word32" where
  "sha1F t b c d =
     (if t < 20 then (b AND c) OR (NOT b AND d)
      else if t < 40 then b XOR c XOR d
      else if t < 60 then (b AND c) OR (b AND d) OR (c AND d)
      else b XOR c XOR d)"

definition sha1K :: "nat \<Rightarrow> word32" where
  "sha1K t =
     (if t < 20 then 0x5A827999
      else if t < 40 then 0x6ED9EBA1
      else if t < 60 then 0x8F1BBCDC
      else 0xCA62C1D6)"

type_synonym sha1State = "word32 \<times> word32 \<times> word32 \<times> word32 \<times> word32"

fun sha1Rounds :: "nat \<Rightarrow> word32 list \<Rightarrow> sha1State \<Rightarrow> sha1State" where
  "sha1Rounds t [] s = s"
| "sha1Rounds t (w # ws) (a, b, c, d, e) =
     sha1Rounds (Suc t) ws
       (word_rotl 5 a + sha1F t b c d + e + sha1K t + w, a, word_rotl 30 b, c, d)"

definition sha1Block :: "sha1State \<Rightarrow> word32 list \<Rightarrow> sha1State" where
  "sha1Block h ws =
     (case (h, sha1Rounds 0 (schedule 64 ws) h) of
        ((h0, h1, h2, h3, h4), (a, b, c, d, e)) \<Rightarrow> (h0 + a, h1 + b, h2 + c, h3 + d, h4 + e))"

definition sha1Init :: sha1State where
  "sha1Init = (0x67452301, 0xEFCDAB89, 0x98BADCFE, 0x10325476, 0xC3D2E1F0)"

definition sha1 :: "byte list \<Rightarrow> byte list" where
  "sha1 msg =
     (let padded = sha1Pad msg;
          ws = wordsOfBytes (length padded div 4) padded;
          (h0, h1, h2, h3, h4) = foldl sha1Block sha1Init (chunks (length padded div 64) ws)
      in bytesOfWord32 h0 @ bytesOfWord32 h1 @ bytesOfWord32 h2 @ bytesOfWord32 h3
         @ bytesOfWord32 h4)"

subsection \<open>\<^verbatim>\<open>generateProjectUuid\<close>\<close>

definition PROJECT_NAMESPACE :: string where
  "PROJECT_NAMESPACE = ''6ba7b810-9dad-11d1-80b4-00c04fd430c8''"

text \<open>
  The three steps of \<^verbatim>\<open>normalizedPath\<close>, on ASCII text:
  \<^verbatim>\<open>.replace(/\\/g, '/')\<close>, \<^verbatim>\<open>.replace(/\/$/, '')\<close> (one slash, at the very end only) and
  \<^verbatim>\<open>.toLowerCase()\<close>.
\<close>

definition backslashesToSlashes :: "string \<Rightarrow> string" where
  "backslashesToSlashes s = map (\<lambda>c. if c = CHR 0x5C then CHR ''/'' else c) s"

definition removeTrailingSlash :: "string \<Rightarrow> string" where
  "removeTrailingSlash s = (if s \<noteq> [] \<and> last s = CHR ''/'' then butlast s else s)"

definition lowerChar :: "char \<Rightarrow> char" where
  "lowerChar c =
     (if CHR ''A'' \<le> c \<and> c \<le> CHR ''Z'' then char_of (of_char c + (32::nat)) else c)"

definition toLowerCase :: "string \<Rightarrow> string" where
  "toLowerCase s = map lowerChar s"

definition normalizedPath :: "string \<Rightarrow> string" where
  "normalizedPath projectPath =
     toLowerCase (removeTrailingSlash (backslashesToSlashes projectPath))"

text \<open>\<^verbatim>\<open>hash.update(string)\<close> hashes the UTF-8 bytes, on ASCII text the character codes.\<close>

definition utf8 :: "string \<Rightarrow> byte list" where
  "utf8 s = map (\<lambda>c. of_nat (of_char c)) s"

definition hexDigit :: "byte \<Rightarrow> char" where
  "hexDigit n = ''0123456789abcdef'' ! unat (n AND 0x0F)"

text \<open>\<^verbatim>\<open>digest.toString('hex')\<close>\<close>

definition toHex :: "byte list \<Rightarrow> string" where
  "toHex bs = concat (map (\<lambda>b. [hexDigit (drop_bit 4 b), hexDigit b]) bs)"

text \<open>\<^verbatim>\<open>hex.substring(from, to)\<close> with \<open>from \<le> to\<close>\<close>

definition substring :: "nat \<Rightarrow> nat \<Rightarrow> string \<Rightarrow> string" where
  "substring from to s = take (to - from) (drop from s)"

text \<open>
  The version and variant bits are set in bytes 6 and 8 of the digest, which always has
  20 bytes; the case for a shorter list is never taken.
\<close>

definition setVersionAndVariant :: "byte list \<Rightarrow> byte list" where
  "setVersionAndVariant digest =
     (let d1 = digest[6 := (digest ! 6 AND 0x0F) OR 0x50]
      in d1[8 := (d1 ! 8 AND 0x3F) OR 0x80])"

definition generateProjectUuid :: "string \<Rightarrow> string" where
  "generateProjectUuid projectPath =
     (let digest = setVersionAndVariant
                     (sha1 (utf8 PROJECT_NAMESPACE @ utf8 (normalizedPath projectPath)));
          hex = toHex digest
      in substring 0 8 hex @ ''-'' @ substring 8 12 hex @ ''-'' @ substring 12 16 hex @ ''-''
         @ substring 16 20 hex @ ''-'' @ substring 20 32 hex)"

text \<open>
  The normalisation as the specification words it: lower-case, unify the path
  separators, strip a trailing separator.
\<close>

definition normalizeSpec :: "string \<Rightarrow> string" where
  "normalizeSpec path =
     (let lowered = map lowerChar path;
          unified = map (\<lambda>c. if c = CHR 0x5C then CHR ''/'' else c) lowered
      in if unified \<noteq> [] \<and> last unified = CHR ''/'' then butlast unified else unified)"

definition isLowerHex :: "char \<Rightarrow> bool" where
  "isLowerHex c = (c \<in> set ''0123456789abcdef'')"

section \<open>utils/diff.ts, utils/toolFormatter.ts, utils/contentCleaner.ts\<close>

text \<open>
  \<^verbatim>\<open>getParameterValue(parameters, ...normalizedKeys)\<close>: for each key in turn, the direct
  lookup, then the first entry whose key, lower-cased and without underscores, is the
  normalised key.
\<close>

definition normalizeKey :: "string \<Rightarrow> string" where
  "normalizeKey k = filter (\<lambda>c. c \<noteq> CHR ''_'') (toLowerCase k)"

fun getParameterValue :: "(string \<times> string) list \<Rightarrow> string list \<Rightarrow> string option" where
  "getParameterValue parameters [] = None"
| "getParameterValue parameters (normalizedKey # others) =
     (case map_of parameters normalizedKey of
        Some v \<Rightarrow> Some v
      | None \<Rightarrow>
          (case find (\<lambda>(k, v). normalizeKey k = normalizedKey) parameters of
             Some (k, v) \<Rightarrow> Some v
           | None \<Rightarrow> getParameterValue parameters others))"

text \<open>\<^verbatim>\<open>filePath.startsWith(prefix)\<close>\<close>

definition startsWith :: "string \<Rightarrow> string \<Rightarrow> bool" where
  "startsWith s p = (take (length p) s = p)"

text \<open>\<^verbatim>\<open>.replace(/^\//, '')\<close>\<close>

definition removeLeadingSlash :: "string \<Rightarrow> string" where
  "removeLeadingSlash s = (case s of c # cs \<Rightarrow> if c = CHR ''/'' then cs else s | [] \<Rightarrow> [])"

definition stripWorkingDirectory :: "string \<Rightarrow> string option \<Rightarrow> string" where
  "stripWorkingDirectory filePath workingDir =
     (if \<not> truthy workingDir then filePath
      else
        (let normalizedWorkingDir = removeTrailingSlash (the workingDir)
         in if startsWith filePath normalizedWorkingDir
            then removeLeadingSlash (drop (length normalizedWorkingDir) filePath)
            else filePath))"

definition formatEditDiffContent ::
  "string \<Rightarrow> string \<Rightarrow> (string \<times> string) list \<Rightarrow> string option \<Rightarrow> MessageContent list" where
  "formatEditDiffContent oldString newString parameters cwd =
     (let filePath = getParameterValue parameters [''filepath'', ''path'']
      in (case filePath of
            Some fp \<Rightarrow>
              [Text ''file_path:'',
               Code (if truthy cwd then stripWorkingDirectory fp cwd else fp) None]
          | None \<Rightarrow> [])
         @ [Diff oldString newString filePath])"

definition formatGenericToolInput :: "(string \<times> string) list \<Rightarrow> MessageContent list" where
  "formatGenericToolInput inp = concat (map (\<lambda>(k, v). [Text k, Code v None]) inp)"

text \<open>\<^verbatim>\<open>haystack.includes(needle)\<close>\<close>

fun stringIncludes :: "string \<Rightarrow> string \<Rightarrow> bool" where
  "stringIncludes [] needle = (needle = [])"
| "stringIncludes (c # cs) needle = (startsWith (c # cs) needle \<or> stringIncludes cs needle)"

definition formatInputWithPathStripping ::
  "(string \<times> string) list \<Rightarrow> string \<Rightarrow> string option \<Rightarrow> MessageContent list" where
  "formatInputWithPathStripping inp toolName cwd =
     (if stringIncludes (toLowerCase toolName) ''edit''
      then (case (getParameterValue inp [''oldstring'', ''oldstr''],
                  getParameterValue inp [''newstring'', ''newstr'']) of
              (Some oldString, Some newString) \<Rightarrow>
                formatEditDiffContent oldString newString inp cwd
            | _ \<Rightarrow> formatGenericToolInput inp)
      else formatGenericToolInput inp)"

text \<open>
  \<^verbatim>\<open>convertToMessageContent\<close>: the blocks of a tool input are text, code and diff
  blocks; the \<^verbatim>\<open>default\<close> branch gives an empty text block.
\<close>

fun convertBlock :: "MessageContent \<Rightarrow> MessageContent" where
  "convertBlock (Text t) = Text t"
| "convertBlock (Code c lang) = Code c lang"
| "convertBlock (Diff oldText newText filePath) = Diff oldText newText filePath"
| "convertBlock _ = Text []"

definition convertToMessageContent :: "MessageContent list \<Rightarrow> MessageContent list" where
  "convertToMessageContent content = map convertBlock content"

text \<open>
  \<^verbatim>\<open>ContentCleaner.extractText\<close>. \<^verbatim>\<open>json.replace(/[{}\[\]",:]/g, ' ')\<close> blanks the
  structural characters; \<^verbatim>\<open>html.replace(/<[^>]*>/g, ' ')\<close> blanks every stretch from a
  \<^verbatim>\<open><\<close> to the next \<^verbatim>\<open>>\<close>; \<^verbatim>\<open>normalizeWhitespace\<close> collapses runs of white space
  and trims.
\<close>

definition stripJsonStructure :: "string \<Rightarrow> string" where
  "stripJsonStructure s =
     map (\<lambda>c. if c \<in> set [CHR ''{'', CHR ''}'', CHR ''['', CHR '']'', CHR 0x22, CHR '','', CHR '':'']
               then CHR '' '' else c) s"

fun stripTagsFuel :: "nat \<Rightarrow> string \<Rightarrow> string" where
  "stripTagsFuel 0 s = s"
| "stripTagsFuel (Suc n) [] = []"
| "stripTagsFuel (Suc n) (c # cs) =
     (if c = CHR ''<'' \<and> CHR ''>'' \<in> set cs
      then CHR '' '' # stripTagsFuel n (tl (dropWhile (\<lambda>x. x \<noteq> CHR ''>'') cs))
      else c # stripTagsFuel n cs)"

text \<open>Every step consumes a character, so the length of the text is fuel enough.\<close>

definition stripTags :: "string \<Rightarrow> string" where
  "stripTags s = stripTagsFuel (length s) s"

text \<open>\<^verbatim>\<open>text.replace(/\s+/g, ' ')\<close>; the flag says that the run of white space is already
  replaced.\<close>

fun collapseWhiteSpace :: "bool \<Rightarrow> string \<Rightarrow> string" where
  "collapseWhiteSpace inRun [] = []"
| "collapseWhiteSpace inRun (c # cs) =
     (if isWhiteSpace c
      then (if inRun then collapseWhiteSpace True cs
            else CHR '' '' # collapseWhiteSpace True cs)
      else c # collapseWhiteSpace False cs)"

definition normalizeWhitespace :: "string \<Rightarrow> string" where
  "normalizeWhitespace text = trim (collapseWhiteSpace False text)"

fun blockParts :: "MessageContent \<Rightarrow> string list" where
  "blockParts (Text t) = [t]"
| "blockParts (Code c lang) = [c]"
| "blockParts (Markdown m) = [m]"
| "blockParts (Json j) = [stripJsonStructure j]"
| "blockParts (Diff oldText newText filePath) =
     (if oldText \<noteq> [] then [oldText] else []) @ (if newText \<noteq> [] then [newText] else [])"
| "blockParts (Html h) = [stripTags h]"

text \<open>\<^verbatim>\<open>parts.join(' ')\<close>\<close>

fun joinWith :: "string \<Rightarrow> string list \<Rightarrow> string" where
  "joinWith sep [] = []"
| "joinWith sep [p] = p"
| "joinWith sep (p # q # ps) = p @ sep @ joinWith sep (q # ps)"

definition extractText :: "MessageContent list \<Rightarrow> string" where
  "extractText content = normalizeWhitespace (joinWith '' '' (concat (map blockParts content)))"

section \<open>database.ts, searchDatabase.ts: connections and transactions\<close>

text \<open>
  \<^verbatim>\<open>DatabaseManager\<close> and \<^verbatim>\<open>SearchDatabase\<close> each wrap one SQLite connection. A
  connection is modelled by the committed tables, the tables as the connection sees
  them, and whether a transaction is open. Outside a transaction every statement
  commits by itself.

  Any statement can fail (disk, locking, a constraint): \<open>failAt\<close> says, for the n-th
  statement the connection executes, whether it throws; \<open>executed\<close> counts the
  statements. A failing statement changes nothing. \<^verbatim>\<open>BEGIN\<close> also fails inside a
  transaction, \<^verbatim>\<open>COMMIT\<close> outside one; \<^verbatim>\<open>ROLLBACK\<close> fails exactly when no transaction
  is open.
\<close>

record 't Database =
  committed :: 't
  current :: 't
  inTransaction :: bool
  failAt :: "nat \<Rightarrow> bool"
  executed :: nat

definition exec :: "('t \<Rightarrow> 'a \<times> 't) \<Rightarrow> 't Database \<Rightarrow> (error + 'a) \<times> 't Database" where
  "exec statement d =
     (if failAt d (executed d) then (Inl SqliteError, d\<lparr>executed := Suc (executed d)\<rparr>)
      else
        (case statement (current d) of
           (a, t) \<Rightarrow>
             (Inr a,
              d\<lparr>current := t,
                committed := (if inTransaction d then committed d else t),
                executed := Suc (executed d)\<rparr>)))"

text \<open>
  A statement whose constraints the tables can violate returns the error itself; the
  failed statement changes nothing.
\<close>

definition execConstrained ::
  "('t \<Rightarrow> (error + 'a) \<times> 't) \<Rightarrow> 't Database \<Rightarrow> (error + 'a) \<times> 't Database" where
  "execConstrained statement d =
     (if failAt d (executed d) then (Inl SqliteError, d\<lparr>executed := Suc (executed d)\<rparr>)
      else
        (case statement (current d) of
           (Inl e, t) \<Rightarrow> (Inl e, d\<lparr>executed := Suc (executed d)\<rparr>)
         | (Inr a, t) \<Rightarrow>
             (Inr a,
              d\<lparr>current := t,
                committed := (if inTransaction d then committed d else t),
                executed := Suc (executed d)\<rparr>)))"

definition beginTransaction :: "'t Database \<Rightarrow> (error + unit) \<times> 't Database" where
  "beginTransaction d =
     (if failAt d (executed d) \<or> inTransaction d
      then (Inl SqliteError, d\<lparr>executed := Suc (executed d)\<rparr>)
      else (Inr (), d\<lparr>inTransaction := True, executed := Suc (executed d)\<rparr>))"

definition commitTransaction :: "'t Database \<Rightarrow> (error + unit) \<times> 't Database" where
  "commitTransaction d =
     (if failAt d (executed d) \<or> \<not> inTransaction d
      then (Inl SqliteError, d\<lparr>executed := Suc (executed d)\<rparr>)
      else (Inr (), d\<lparr>committed := current d, inTransaction := False,
                       executed := Suc (executed d)\<rparr>))"

definition rollbackTransaction :: "'t Database \<Rightarrow> (error + unit) \<times> 't Database" where
  "rollbackTransaction d =
     (if \<not> inTransaction d
      then (Inl SqliteError, d\<lparr>executed := Suc (executed d)\<rparr>)
      else (Inr (), d\<lparr>current := committed d, inTransaction := False,
                       executed := Suc (executed d)\<rparr>))"

text \<open>Sequencing of calls that can throw: the first error ends the sequence.\<close>

definition andThen ::
  "('s \<Rightarrow> (error + 'a) \<times> 's) \<Rightarrow> ('a \<Rightarrow> 's \<Rightarrow> (error + 'b) \<times> 's) \<Rightarrow> 's \<Rightarrow> (error + 'b) \<times> 's" where
  "andThen m f s = (case m s of (Inl e, s') \<Rightarrow> (Inl e, s') | (Inr a, s') \<Rightarrow> f a s')"

definition succeed :: "'a \<Rightarrow> 's \<Rightarrow> (error + 'a) \<times> 's" where
  "succeed a s = (Inr a, s)"

section \<open>The tables of \<^verbatim>\<open>var/sessions.db\<close> and the repositories\<close>

datatype SessionProvider =
  CLAUDE_CODE | OPENCODE | CODEX | AMP | JUNIE | KILO_CODE | GEMINI | DROID

fun providerValue :: "SessionProvider \<Rightarrow> string" where
  "providerValue CLAUDE_CODE = ''claude_code''"
| "providerValue OPENCODE = ''opencode''"
| "providerValue CODEX = ''codex''"
| "providerValue AMP = ''amp''"
| "providerValue JUNIE = ''junie''"
| "providerValue KILO_CODE = ''kilocode''"
| "providerValue GEMINI = ''gemini''"
| "providerValue DROID = ''droid''"

record Project =
  p_projectUuid :: string
  p_name :: string
  p_path :: "string option"
  p_createdAt :: string
  p_updatedAt :: string

record ProjectRow =
  pr_id :: nat
  pr_project_uuid :: string
  pr_name :: string
  pr_path :: "string option"
  pr_created_at :: string
  pr_updated_at :: string

record Session =
  s_projectId :: nat
  s_sessionId :: string
  s_title :: string
  s_provider :: SessionProvider
  s_version :: "string option"
  s_gitBranch :: "string option"
  s_cwd :: "string option"
  s_modelsJson :: "string option"
  s_created :: "string option"
  s_modified :: "string option"
  s_messageCount :: nat
  s_createdAt :: string
  s_updatedAt :: string

record SessionRow =
  sn_id :: nat
  sn_project_id :: nat
  sn_session_id :: string
  sn_title :: string
  sn_provider :: string
  sn_version :: "string option"
  sn_git_branch :: "string option"
  sn_cwd :: "string option"
  sn_models_json :: "string option"
  sn_created :: "string option"
  sn_modified :: "string option"
  sn_message_count :: nat
  sn_created_at :: string
  sn_updated_at :: string

record RenderableMessage =
  rm_sessionId :: nat
  rm_sequence :: nat
  rm_cardType :: string
  rm_title :: string
  rm_subtitle :: "string option"
  rm_content :: "MessageContent list"
  rm_timestamp :: string
  rm_canExpand :: bool
  rm_isError :: bool
  rm_createdAt :: string

record MessageRow =
  mr_id :: nat
  mr_session_id :: nat
  mr_sequence :: nat
  mr_card_type :: string
  mr_title :: string
  mr_subtitle :: "string option"
  mr_content_json :: string
  mr_timestamp :: string
  mr_can_expand :: nat
  mr_is_error :: nat
  mr_created_at :: string

record Tables =
  projects :: "ProjectRow list"
  projectsSeq :: nat
  sessions :: "SessionRow list"
  sessionsSeq :: nat
  messages :: "MessageRow list"
  messagesSeq :: nat

text \<open>
  \<^verbatim>\<open>INTEGER PRIMARY KEY AUTOINCREMENT\<close>: a new row gets an id one larger than the largest
  id the table ever held (the table's entry in \<^verbatim>\<open>sqlite_sequence\<close>, or the largest id
  present if that is larger). An \<^verbatim>\<open>INSERT ... ON CONFLICT DO UPDATE\<close> that ends in the
  update has taken its id all the same: the sequence advances, no row carries the id.
\<close>

definition nextId :: "nat \<Rightarrow> nat list \<Rightarrow> nat" where
  "nextId seq ids = Suc (fold max ids seq)"

text \<open>\<^verbatim>\<open>value || null\<close> on an optional string\<close>

definition orNull :: "string option \<Rightarrow> string option" where
  "orNull v = (if truthy v then v else None)"

subsection \<open>\<^verbatim>\<open>ProjectRepository\<close>\<close>

text \<open>
  \<^verbatim>\<open>INSERT ... ON CONFLICT(project_uuid) DO UPDATE SET name, path, updated_at ... RETURNING id\<close>
\<close>

definition projectsUpsert :: "Project \<Rightarrow> Tables \<Rightarrow> nat \<times> Tables" where
  "projectsUpsert project t =
     (let conflict = (\<lambda>r. pr_project_uuid r = p_projectUuid project)
      in case find conflict (projects t) of
           Some existing \<Rightarrow>
             (pr_id existing,
              t\<lparr>projects :=
                  map (\<lambda>r. if conflict r
                            then r\<lparr>pr_name := p_name project,
                                   pr_path := orNull (p_path project),
                                   pr_updated_at := p_updatedAt project\<rparr>
                            else r) (projects t),
                projectsSeq := nextId (projectsSeq t) (map pr_id (projects t))\<rparr>)
         | None \<Rightarrow>
             (let newId = nextId (projectsSeq t) (map pr_id (projects t))
              in (newId,
                  t\<lparr>projects := projects t @
                        [\<lparr>pr_id = newId,
                          pr_project_uuid = p_projectUuid project,
                          pr_name = p_name project,
                          pr_path = orNull (p_path project),
                          pr_created_at = p_createdAt project,
                          pr_updated_at = p_updatedAt project\<rparr>],
                    projectsSeq := newId\<rparr>)))"


subsection \<open>\<^verbatim>\<open>SessionRepository\<close>\<close>

text \<open>
  \<^verbatim>\<open>INSERT ... ON CONFLICT(project_id, session_id) DO UPDATE SET\<close> every column but
  \<^verbatim>\<open>id\<close>, the key and \<^verbatim>\<open>created_at\<close> \<^verbatim>\<open>... RETURNING id\<close>. First what the statement does
  to the rows and to the table's sequence.
\<close>

definition sessionConflict :: "Session \<Rightarrow> SessionRow \<Rightarrow> bool" where
  "sessionConflict session r =
     (sn_project_id r = s_projectId session \<and> sn_session_id r = s_sessionId session)"

definition updateSessionRow :: "Session \<Rightarrow> SessionRow \<Rightarrow> SessionRow" where
  "updateSessionRow session r =
     r\<lparr>sn_title := s_title session,
       sn_provider := providerValue (s_provider session),
       sn_version := orNull (s_version session),
       sn_git_branch := orNull (s_gitBranch session),
       sn_cwd := orNull (s_cwd session),
       sn_models_json := orNull (s_modelsJson session),
       sn_created := orNull (s_created session),
       sn_modified := orNull (s_modified session),
       sn_message_count := s_messageCount session,
       sn_updated_at := s_updatedAt session\<rparr>"

definition insertedSessionRow :: "nat \<Rightarrow> Session \<Rightarrow> SessionRow" where
  "insertedSessionRow newId session =
     \<lparr>sn_id = newId,
      sn_project_id = s_projectId session,
      sn_session_id = s_sessionId session,
      sn_title = s_title session,
      sn_provider = providerValue (s_provider session),
      sn_version = orNull (s_version session),
      sn_git_branch = orNull (s_gitBranch session),
      sn_cwd = orNull (s_cwd session),
      sn_models_json = orNull (s_modelsJson session),
      sn_created = orNull (s_created session),
      sn_modified = orNull (s_modified session),
      sn_message_count = s_messageCount session,
      sn_created_at = s_createdAt session,
      sn_updated_at = s_updatedAt session\<rparr>"

definition sessionsUpsertRows :: "Session \<Rightarrow> Tables \<Rightarrow> nat \<times> Tables" where
  "sessionsUpsertRows session t =
     (case find (sessionConflict session) (sessions t) of
        Some existing \<Rightarrow>
          (sn_id existing,
           t\<lparr>sessions :=
               map (\<lambda>r. if sessionConflict session r then updateSessionRow session r else r)
                 (sessions t),
             sessionsSeq := nextId (sessionsSeq t) (map sn_id (sessions t))\<rparr>)
      | None \<Rightarrow>
          (let newId = nextId (sessionsSeq t) (map sn_id (sessions t))
           in (newId,
               t\<lparr>sessions := sessions t @ [insertedSessionRow newId session],
                 sessionsSeq := newId\<rparr>)))"

text \<open>
  The statement itself. \<^verbatim>\<open>FOREIGN KEY (project_id) REFERENCES projects(id)\<close> (the driver
  enforces foreign keys): inserting a row whose project does not exist throws, and the
  statement changes nothing.
\<close>

definition sessionsUpsert :: "Session \<Rightarrow> Tables \<Rightarrow> (error + nat) \<times> Tables" where
  "sessionsUpsert session t =
     (if find (sessionConflict session) (sessions t) = None
         \<and> s_projectId session \<notin> set (map pr_id (projects t))
      then (Inl SqliteError, t)
      else (Inr (fst (sessionsUpsertRows session t)), snd (sessionsUpsertRows session t)))"

text \<open>\<^verbatim>\<open>SELECT * FROM sessions WHERE project_id = ? AND session_id = ?\<close>\<close>

definition sessionsGetByProjectAndSessionId ::
  "nat \<Rightarrow> string \<Rightarrow> Tables \<Rightarrow> SessionRow option \<times> Tables" where
  "sessionsGetByProjectAndSessionId projectId sessionId t =
     (find (\<lambda>r. sn_project_id r = projectId \<and> sn_session_id r = sessionId) (sessions t), t)"


subsection \<open>\<^verbatim>\<open>MessageRepository\<close>\<close>

text \<open>
  \<^verbatim>\<open>INSERT ... ON CONFLICT(session_id, sequence) DO UPDATE SET\<close> every column but
  \<^verbatim>\<open>id\<close> and the key \<^verbatim>\<open>... RETURNING id\<close>. \<^verbatim>\<open>JSON.stringify(message.content)\<close> is the
  parameter \<open>stringify\<close>. First what the statement does to the rows and to the table's
  sequence.
\<close>

definition messageConflict :: "RenderableMessage \<Rightarrow> MessageRow \<Rightarrow> bool" where
  "messageConflict message r =
     (mr_session_id r = rm_sessionId message \<and> mr_sequence r = rm_sequence message)"

definition updateMessageRow ::
  "(MessageContent list \<Rightarrow> string) \<Rightarrow> RenderableMessage \<Rightarrow> MessageRow \<Rightarrow> MessageRow" where
  "updateMessageRow stringify message r =
     r\<lparr>mr_card_type := rm_cardType message,
       mr_title := rm_title message,
       mr_subtitle := orNull (rm_subtitle message),
       mr_content_json := stringify (rm_content message),
       mr_timestamp := rm_timestamp message,
       mr_can_expand := (if rm_canExpand message then 1 else 0),
       mr_is_error := (if rm_isError message then 1 else 0),
       mr_created_at := rm_createdAt message\<rparr>"

definition insertedMessageRow ::
  "(MessageContent list \<Rightarrow> string) \<Rightarrow> nat \<Rightarrow> RenderableMessage \<Rightarrow> MessageRow" where
  "insertedMessageRow stringify newId message =
     \<lparr>mr_id = newId,
      mr_session_id = rm_sessionId message,
      mr_sequence = rm_sequence message,
      mr_card_type = rm_cardType message,
      mr_title = rm_title message,
      mr_subtitle = orNull (rm_subtitle message),
      mr_content_json = stringify (rm_content message),
      mr_timestamp = rm_timestamp message,
      mr_can_expand = (if rm_canExpand message then 1 else 0),
      mr_is_error = (if rm_isError message then 1 else 0),
      mr_created_at = rm_createdAt message\<rparr>"

definition messagesUpsertRows ::
  "(MessageContent list \<Rightarrow> string) \<Rightarrow> RenderableMessage \<Rightarrow> Tables \<Rightarrow> nat \<times> Tables" where
  "messagesUpsertRows stringify message t =
     (case find (messageConflict message) (messages t) of
        Some existing \<Rightarrow>
          (mr_id existing,
           t\<lparr>messages :=
               map (\<lambda>r. if messageConflict message r then updateMessageRow stringify message r
                         else r)
                 (messages t),
             messagesSeq := nextId (messagesSeq t) (map mr_id (messages t))\<rparr>)
      | None \<Rightarrow>
          (let newId = nextId (messagesSeq t) (map mr_id (messages t))
           in (newId,
               t\<lparr>messages := messages t @ [insertedMessageRow stringify newId message],
                 messagesSeq := newId\<rparr>)))"

text \<open>
  The statement itself. \<^verbatim>\<open>FOREIGN KEY (session_id) REFERENCES sessions(id)\<close>: inserting a
  row whose session does not exist throws, and the statement changes nothing.
\<close>

definition messagesUpsert ::
  "(MessageContent list \<Rightarrow> string) \<Rightarrow> RenderableMessage \<Rightarrow> Tables \<Rightarrow>
   (error + nat) \<times> Tables" where
  "messagesUpsert stringify message t =
     (if find (messageConflict message) (messages t) = None
         \<and> rm_sessionId message \<notin> set (map sn_id (sessions t))
      then (Inl SqliteError, t)
      else (Inr (fst (messagesUpsertRows stringify message t)),
            snd (messagesUpsertRows stringify message t)))"

text \<open>\<^verbatim>\<open>DELETE FROM messages WHERE session_id = ? AND sequence > ?\<close>\<close>

definition deleteBySessionIdAndMinSequence :: "nat \<Rightarrow> int \<Rightarrow> Tables \<Rightarrow> unit \<times> Tables" where
  "deleteBySessionIdAndMinSequence sessionId minSequence t =
     ((), t\<lparr>messages :=
             filter (\<lambda>r. \<not> (mr_session_id r = sessionId \<and> int (mr_sequence r) > minSequence))
               (messages t)\<rparr>)"


subsection \<open>\<^verbatim>\<open>SearchRepository\<close>: the statements that write\<close>

definition searchInsert :: "SearchEntry \<Rightarrow> SearchEntry list \<Rightarrow> unit \<times> SearchEntry list" where
  "searchInsert entry rows = ((), rows @ [entry])"

definition searchDeleteBySessionId :: "string \<Rightarrow> SearchEntry list \<Rightarrow> unit \<times> SearchEntry list" where
  "searchDeleteBySessionId sessionId rows =
     ((), filter (\<lambda>e. se_sessionId e \<noteq> sessionId) rows)"


section \<open>adapters/sessionAdapter.ts and the session types\<close>

record SessionMetadata =
  md_version :: "string option"
  md_gitBranch :: "string option"
  md_cwd :: "string option"
  md_models :: "(string \<times> nat) list"
  md_created :: "string option"
  md_modified :: "string option"
  md_messageCount :: nat

record SessionDetail =
  sd_sessionId :: string
  sd_title :: string
  sd_messages :: "ParsedMessage list"
  sd_metadata :: "SessionMetadata option"

record SessionWithProject =
  swp_session :: SessionDetail
  swp_provider :: SessionProvider
  swp_projectPath :: string
  swp_projectName :: string
  swp_title :: "string option"
  swp_created :: string
  swp_updated :: string

section \<open>adapters/importer.ts: \<^verbatim>\<open>SessionImporter\<close>\<close>

subsection \<open>\<^verbatim>\<open>convertToMessage\<close>\<close>

text \<open>
  One card per parsed message. The \<^verbatim>\<open>default\<close> branch of the \<^verbatim>\<open>switch\<close> is not
  reachable: the six message kinds are all there are.
\<close>

definition baseCard :: "ParsedMessage \<Rightarrow> nat \<Rightarrow> string \<Rightarrow> nat \<Rightarrow> RenderableMessage" where
  "baseCard msg sessionId now sequence =
     \<lparr> rm_sessionId = sessionId,
       rm_sequence = sequence,
       rm_cardType = [],
       rm_title = [],
       rm_subtitle = None,
       rm_content = [],
       rm_timestamp = timestamp msg,
       rm_canExpand = True,
       rm_isError = False,
       rm_createdAt = now \<rparr>"

fun convertToMessage ::
  "ParsedMessage \<Rightarrow> nat \<Rightarrow> string \<Rightarrow> nat \<Rightarrow> string option \<Rightarrow> RenderableMessage" where
  "convertToMessage (User ts content) sessionId now sequence cwd =
     (baseCard (User ts content) sessionId now sequence)
       \<lparr> rm_cardType := ''user'', rm_title := ''user'', rm_content := content,
         rm_isError := False \<rparr>"
| "convertToMessage (AssistantText ts content) sessionId now sequence cwd =
     (baseCard (AssistantText ts content) sessionId now sequence)
       \<lparr> rm_cardType := ''assistant'', rm_title := ''text'', rm_content := content,
         rm_isError := False \<rparr>"
| "convertToMessage (AssistantThinking ts thinking) sessionId now sequence cwd =
     (baseCard (AssistantThinking ts thinking) sessionId now sequence)
       \<lparr> rm_cardType := ''thinking'', rm_title := ''thinking'', rm_content := [Text thinking],
         rm_isError := False \<rparr>"
| "convertToMessage (ToolUse ts toolName callId inp res) sessionId now sequence cwd =
     (baseCard (ToolUse ts toolName callId inp res) sessionId now sequence)
       \<lparr> rm_cardType := ''tool-use'', rm_title := ''tool_use'', rm_subtitle := Some toolName,
         rm_content := convertToMessageContent (formatInputWithPathStripping inp toolName cwd),
         rm_isError := False \<rparr>"
| "convertToMessage (ToolResultMsg ts tn callId out err) sessionId now sequence cwd =
     (baseCard (ToolResultMsg ts tn callId out err) sessionId now sequence)
       \<lparr> rm_cardType := ''tool-result'', rm_title := ''tool_result'',
         rm_subtitle := map_option (take 24) callId,
         rm_content := out, rm_isError := err \<rparr>"
| "convertToMessage (Info ts title subtitle content style) sessionId now sequence cwd =
     (baseCard (Info ts title subtitle content style) sessionId now sequence)
       \<lparr> rm_cardType := (if style = StyleError then ''error'' else ''info''),
         rm_title := title, rm_subtitle := subtitle,
         rm_content := (case content of Some c \<Rightarrow> [c] | None \<Rightarrow> [Text (''['' @ title @ '']'')]),
         rm_isError := (style = StyleError) \<rparr>"

subsection \<open>\<^verbatim>\<open>importSession\<close>\<close>

text \<open>
  The two \<^verbatim>\<open>JSON.stringify\<close> calls (of a card's content blocks, of the model list) are
  parameters.
\<close>

record Json =
  stringifyContent :: "MessageContent list \<Rightarrow> string"
  stringifyModels :: "(string \<times> nat) list \<Rightarrow> string"

definition MSG_BATCH_SIZE :: nat where
  "MSG_BATCH_SIZE = 50"

definition SEARCH_BATCH_SIZE :: nat where
  "SEARCH_BATCH_SIZE = 50"

definition sessionTitle :: "SessionWithProject \<Rightarrow> string" where
  "sessionTitle sessionWithProject =
     (if truthy (swp_title sessionWithProject) then the (swp_title sessionWithProject)
      else sd_title (swp_session sessionWithProject))"

definition sessionData :: "Json \<Rightarrow> SessionWithProject \<Rightarrow> nat \<Rightarrow> Session" where
  "sessionData json sessionWithProject projectId =
     (let sessionDetail = swp_session sessionWithProject;
          metadata = sd_metadata sessionDetail
      in \<lparr> s_projectId = projectId,
           s_sessionId = sd_sessionId sessionDetail,
           s_title = sessionTitle sessionWithProject,
           s_provider = swp_provider sessionWithProject,
           s_version = Option.bind metadata md_version,
           s_gitBranch = Option.bind metadata md_gitBranch,
           s_cwd = Option.bind metadata md_cwd,
           s_modelsJson = map_option (\<lambda>m. stringifyModels json (md_models m)) metadata,
           s_created = Option.bind metadata md_created,
           s_modified = Option.bind metadata md_modified,
           s_messageCount = length (sd_messages sessionDetail),
           s_createdAt = swp_created sessionWithProject,
           s_updatedAt = swp_updated sessionWithProject \<rparr>)"

text \<open>
  The \<^verbatim>\<open>forEach\<close> over \<^verbatim>\<open>sessionDetail.messages\<close>: its state is the connection, the
  array \<^verbatim>\<open>renderableMessages\<close> and \<^verbatim>\<open>lastSequence\<close>; after every fiftieth message the
  transaction is committed and a new one begun.
\<close>

fun upsertMessages ::
  "Json \<Rightarrow> nat \<Rightarrow> string \<Rightarrow> string option \<Rightarrow> nat \<Rightarrow> ParsedMessage list \<Rightarrow>
   RenderableMessage list \<Rightarrow> int \<Rightarrow> Tables Database \<Rightarrow>
   (error + RenderableMessage list \<times> int) \<times> Tables Database" where
  "upsertMessages json sessionId createdAt cwd index [] renderableMessages lastSequence d =
     (Inr (renderableMessages, lastSequence), d)"
| "upsertMessages json sessionId createdAt cwd index (message # rest) renderableMessages
     lastSequence d =
     (let messageData = convertToMessage message sessionId createdAt index cwd
      in case execConstrained (messagesUpsert (stringifyContent json) messageData) d of
           (Inl e, d1) \<Rightarrow> (Inl e, d1)
         | (Inr rowId, d1) \<Rightarrow>
             (if (index + 1) mod MSG_BATCH_SIZE = 0
              then (case commitTransaction d1 of
                      (Inl e, d2) \<Rightarrow> (Inl e, d2)
                    | (Inr u, d2) \<Rightarrow>
                        (case beginTransaction d2 of
                           (Inl e, d3) \<Rightarrow> (Inl e, d3)
                         | (Inr v, d3) \<Rightarrow>
                             upsertMessages json sessionId createdAt cwd (Suc index) rest
                               (renderableMessages @ [messageData]) (int index) d3))
              else upsertMessages json sessionId createdAt cwd (Suc index) rest
                     (renderableMessages @ [messageData]) (int index) d1))"

text \<open>
  The body of the outer \<^verbatim>\<open>try\<close> up to the commit of the primary store: everything
  \<^verbatim>\<open>importSession\<close> does on \<^verbatim>\<open>this.db\<close> after \<^verbatim>\<open>beginTransaction\<close>.
\<close>

definition primaryWrites ::
  "Json \<Rightarrow> SessionWithProject \<Rightarrow> nat \<Rightarrow> Tables Database \<Rightarrow>
   (error + RenderableMessage list) \<times> Tables Database" where
  "primaryWrites json sessionWithProject projectId =
     (let sessionDetail = swp_session sessionWithProject
      in andThen (exec (sessionsGetByProjectAndSessionId projectId (sd_sessionId sessionDetail)))
           (\<lambda>existingSession.
         andThen (execConstrained (sessionsUpsert (sessionData json sessionWithProject projectId)))
           (\<lambda>sessionId.
         andThen (upsertMessages json sessionId (swp_created sessionWithProject)
                    (Option.bind (sd_metadata sessionDetail) md_cwd) 0
                    (sd_messages sessionDetail) [] (- 1))
           (\<lambda>(renderableMessages, lastSequence).
         andThen (if lastSequence \<ge> 0
                  then exec (deleteBySessionIdAndMinSequence sessionId lastSequence)
                  else succeed ())
           (\<lambda>u.
         andThen commitTransaction
           (\<lambda>v. succeed renderableMessages))))))"

text \<open>The \<^verbatim>\<open>forEach\<close> over \<^verbatim>\<open>renderableMessages\<close> in the search phase.\<close>

fun insertSearchEntries ::
  "SessionWithProject \<Rightarrow> string \<Rightarrow> nat \<Rightarrow> RenderableMessage list \<Rightarrow>
   SearchEntry list Database \<Rightarrow> (error + unit) \<times> SearchEntry list Database" where
  "insertSearchEntries sessionWithProject projectUuid i [] s = (Inr (), s)"
| "insertSearchEntries sessionWithProject projectUuid i (msg # rest) s =
     (let text = extractText (rm_content msg)
      in case (if text \<noteq> []
               then exec (searchInsert
                      \<lparr> se_content = text,
                        se_sessionId = sd_sessionId (swp_session sessionWithProject),
                        se_projectId = projectUuid,
                        se_cardType = rm_cardType msg,
                        se_sessionTitle = sessionTitle sessionWithProject,
                        se_projectName = swp_projectName sessionWithProject,
                        se_timestamp = rm_timestamp msg \<rparr>) s
               else (Inr (), s)) of
           (Inl e, s1) \<Rightarrow> (Inl e, s1)
         | (Inr u, s1) \<Rightarrow>
             (if (i + 1) mod SEARCH_BATCH_SIZE = 0
              then (case commitTransaction s1 of
                      (Inl e, s2) \<Rightarrow> (Inl e, s2)
                    | (Inr v, s2) \<Rightarrow>
                        (case beginTransaction s2 of
                           (Inl e, s3) \<Rightarrow> (Inl e, s3)
                         | (Inr w, s3) \<Rightarrow>
                             insertSearchEntries sessionWithProject projectUuid (Suc i) rest s3))
              else insertSearchEntries sessionWithProject projectUuid (Suc i) rest s1))"

text \<open>The body of the inner \<^verbatim>\<open>try\<close>: the search-index write phase.\<close>

definition searchWrites ::
  "SessionWithProject \<Rightarrow> string \<Rightarrow> RenderableMessage list \<Rightarrow> SearchEntry list Database \<Rightarrow>
   (error + unit) \<times> SearchEntry list Database" where
  "searchWrites sessionWithProject projectUuid renderableMessages =
     andThen (exec (searchDeleteBySessionId (sd_sessionId (swp_session sessionWithProject))))
       (\<lambda>u.
     andThen beginTransaction
       (\<lambda>v.
     andThen (insertSearchEntries sessionWithProject projectUuid 0 renderableMessages)
       (\<lambda>w. commitTransaction)))"

record Stores =
  db :: "Tables Database"
  searchDb :: "SearchEntry list Database"

text \<open>
  \<^verbatim>\<open>importSession\<close>: \<^verbatim>\<open>beginTransaction\<close> stands before the outer \<^verbatim>\<open>try\<close>; the outer
  \<^verbatim>\<open>catch\<close> rolls the primary store back and rethrows (an error of the rollback itself
  takes the place of the first); the inner \<^verbatim>\<open>catch\<close> logs, tries to roll the search
  store back and swallows both errors.
\<close>

definition importSession ::
  "Json \<Rightarrow> SessionWithProject \<Rightarrow> nat \<Rightarrow> string \<Rightarrow> Stores \<Rightarrow> (error + unit) \<times> Stores" where
  "importSession json sessionWithProject projectId projectUuid st =
     (case beginTransaction (db st) of
        (Inl e, d1) \<Rightarrow> (Inl e, st\<lparr>db := d1\<rparr>)
      | (Inr u, d1) \<Rightarrow>
          (case primaryWrites json sessionWithProject projectId d1 of
             (Inl e, d2) \<Rightarrow>
               (case rollbackTransaction d2 of
                  (Inl e', d3) \<Rightarrow> (Inl e', st\<lparr>db := d3\<rparr>)
                | (Inr v, d3) \<Rightarrow> (Inl e, st\<lparr>db := d3\<rparr>))
           | (Inr renderableMessages, d2) \<Rightarrow>
               (case searchWrites sessionWithProject projectUuid renderableMessages
                       (searchDb st) of
                  (Inl e, s1) \<Rightarrow>
                    (Inr (), st\<lparr>db := d2, searchDb := snd (rollbackTransaction s1)\<rparr>)
                | (Inr v, s1) \<Rightarrow> (Inr (), st\<lparr>db := d2, searchDb := s1\<rparr>))))"

text \<open>
  \<^verbatim>\<open>importSingleSession\<close>: the two checks, the project upsert (outside any
  transaction), then \<^verbatim>\<open>importSession\<close>.
\<close>

definition importSingleSession ::
  "Json \<Rightarrow> SessionWithProject \<Rightarrow> Stores \<Rightarrow> (error + unit) \<times> Stores" where
  "importSingleSession json sessionWithProject st =
     (if swp_projectName sessionWithProject = [] then (Inl (Error ''no valid project name''), st)
      else if swp_projectPath sessionWithProject = []
              \<or> swp_projectPath sessionWithProject = ''unknown''
      then (Inl (Error ''no valid project path''), st)
      else
        (let projectUuid = generateProjectUuid (swp_projectPath sessionWithProject)
         in case exec (projectsUpsert
                    \<lparr> p_projectUuid = projectUuid,
                      p_name = swp_projectName sessionWithProject,
                      p_path = Some (swp_projectPath sessionWithProject),
                      p_createdAt = swp_created sessionWithProject,
                      p_updatedAt = swp_updated sessionWithProject \<rparr>) (db st) of
              (Inl e, d1) \<Rightarrow> (Inl e, st\<lparr>db := d1\<rparr>)
            | (Inr projectId, d1) \<Rightarrow>
                importSession json sessionWithProject projectId projectUuid (st\<lparr>db := d1\<rparr>)))"

subsection \<open>The effect of \<^verbatim>\<open>importSession\<close> on the tables when no statement fails\<close>

text \<open>
  The statements of the primary write, in order, as functions on the tables (the foreign
  keys hold: the project is there, and the session after its upsert): the session
  upsert, one message upsert per message, the delete of the rows beyond the last
  sequence (only behind the guard \<^verbatim>\<open>lastSequence >= 0\<close>).
\<close>

fun renderableMessagesFrom ::
  "nat \<Rightarrow> string \<Rightarrow> string option \<Rightarrow> nat \<Rightarrow> ParsedMessage list \<Rightarrow> RenderableMessage list" where
  "renderableMessagesFrom sessionId createdAt cwd index [] = []"
| "renderableMessagesFrom sessionId createdAt cwd index (message # rest) =
     convertToMessage message sessionId createdAt index cwd
       # renderableMessagesFrom sessionId createdAt cwd (Suc index) rest"

fun upsertAll :: "(MessageContent list \<Rightarrow> string) \<Rightarrow> RenderableMessage list \<Rightarrow> Tables \<Rightarrow> Tables" where
  "upsertAll stringify [] t = t"
| "upsertAll stringify (message # rest) t =
     upsertAll stringify rest (snd (messagesUpsertRows stringify message t))"

definition sessionCwd :: "SessionWithProject \<Rightarrow> string option" where
  "sessionCwd sessionWithProject =
     Option.bind (sd_metadata (swp_session sessionWithProject)) md_cwd"

definition sessionRowId :: "Json \<Rightarrow> SessionWithProject \<Rightarrow> nat \<Rightarrow> Tables \<Rightarrow> nat" where
  "sessionRowId json sessionWithProject projectId t =
     fst (sessionsUpsertRows (sessionData json sessionWithProject projectId) t)"

definition sessionCards :: "Json \<Rightarrow> SessionWithProject \<Rightarrow> nat \<Rightarrow> Tables \<Rightarrow> RenderableMessage list" where
  "sessionCards json sessionWithProject projectId t =
     renderableMessagesFrom (sessionRowId json sessionWithProject projectId t)
       (swp_created sessionWithProject) (sessionCwd sessionWithProject) 0
       (sd_messages (swp_session sessionWithProject))"

definition primaryTables :: "Json \<Rightarrow> SessionWithProject \<Rightarrow> nat \<Rightarrow> Tables \<Rightarrow> Tables" where
  "primaryTables json sessionWithProject projectId t =
     (let sessionId = sessionRowId json sessionWithProject projectId t;
          t1 = snd (sessionsUpsertRows (sessionData json sessionWithProject projectId) t);
          cards = sessionCards json sessionWithProject projectId t;
          t2 = upsertAll (stringifyContent json) cards t1
      in if cards = [] then t2
         else snd (deleteBySessionIdAndMinSequence sessionId (int (length cards) - 1) t2))"

text \<open>The rows of the three tables, without the sequences.\<close>

definition rowsOf :: "Tables \<Rightarrow> ProjectRow list \<times> SessionRow list \<times> MessageRow list" where
  "rowsOf t = (projects t, sessions t, messages t)"

text \<open>
  A connection on which no statement fails, and a connection at rest: no transaction
  open, nothing uncommitted.
\<close>

definition noFaults :: "'t Database \<Rightarrow> bool" where
  "noFaults d = (\<forall>n. \<not> failAt d n)"

definition idle :: "'t Database \<Rightarrow> bool" where
  "idle d = (\<not> inTransaction d \<and> current d = committed d)"

text \<open>The rows of one session, and the key of the unique index on \<^verbatim>\<open>messages\<close>.\<close>

definition messageKey :: "MessageRow \<Rightarrow> nat \<times> nat" where
  "messageKey r = (mr_session_id r, mr_sequence r)"

definition sessionMessages :: "nat \<Rightarrow> Tables \<Rightarrow> MessageRow list" where
  "sessionMessages sessionId t = filter (\<lambda>r. mr_session_id r = sessionId) (messages t)"

definition uniqueMessageKeys :: "Tables \<Rightarrow> bool" where
  "uniqueMessageKeys t = distinct (map messageKey (messages t))"

text \<open>
  The closed form of the message loop: every row that was there is overwritten by the
  card with its key, if there is one, and the cards without a row are appended.
\<close>

definition cardKey :: "RenderableMessage \<Rightarrow> nat \<times> nat" where
  "cardKey c = (rm_sessionId c, rm_sequence c)"

definition applyCards ::
  "(MessageContent list \<Rightarrow> string) \<Rightarrow> RenderableMessage list \<Rightarrow> MessageRow \<Rightarrow> MessageRow" where
  "applyCards stringify cards r =
     (case find (\<lambda>c. messageConflict c r) cards of
        Some c \<Rightarrow> updateMessageRow stringify c r
      | None \<Rightarrow> r)"

fun insertedRows ::
  "(MessageContent list \<Rightarrow> string) \<Rightarrow> RenderableMessage list \<Rightarrow> Tables \<Rightarrow> MessageRow list" where
  "insertedRows stringify [] t = []"
| "insertedRows stringify (c # cs) t =
     (case find (messageConflict c) (messages t) of
        Some existing \<Rightarrow> insertedRows stringify cs (snd (messagesUpsertRows stringify c t))
      | None \<Rightarrow>
          insertedMessageRow stringify (nextId (messagesSeq t) (map mr_id (messages t))) c
            # insertedRows stringify cs (snd (messagesUpsertRows stringify c t)))"

subsection \<open>Example stores and sessions\<close>

text \<open>
  The scenario of the specification: the session with the two messages
  \<^verbatim>\<open>user: "fix bug"\<close> and \<^verbatim>\<open>assistant_text: "done"\<close>, the same session with only the first
  message, and with none; empty stores on which no statement fails. The example
  serialiser writes the text of text blocks only.
\<close>

definition emptyTables :: Tables where
  "emptyTables =
     \<lparr> projects = [], projectsSeq = 0, sessions = [], sessionsSeq = 0,
       messages = [], messagesSeq = 0 \<rparr>"

definition freshDatabase :: "'t \<Rightarrow> 't Database" where
  "freshDatabase t =
     \<lparr> committed = t, current = t, inTransaction = False, failAt = (\<lambda>n. False),
       executed = 0 \<rparr>"


text \<open>
  The store after the project of the example sessions has been upserted: its row with
  id 1, and nothing else.
\<close>

definition exampleUuid :: string where
  "exampleUuid = ''e8eb48b1-85f3-570d-93c6-d809e4c7e4f5''"

definition projectTables :: Tables where
  "projectTables =
     emptyTables
       \<lparr> projects :=
           [\<lparr> pr_id = 1, pr_project_uuid = exampleUuid, pr_name = ''proj'',
              pr_path = Some ''/home/user/proj'',
              pr_created_at = ''2025-01-01T00:00:00.000Z'',
              pr_updated_at = ''2025-01-02T00:00:00.000Z'' \<rparr>],
         projectsSeq := 1 \<rparr>"

definition projectStores :: Stores where
  "projectStores = \<lparr> db = freshDatabase projectTables, searchDb = freshDatabase [] \<rparr>"

fun blockText :: "MessageContent \<Rightarrow> string" where
  "blockText (Text t) = t"
| "blockText _ = []"

definition exampleJson :: Json where
  "exampleJson =
     \<lparr> stringifyContent = (\<lambda>content. concat (map blockText content)),
       stringifyModels = (\<lambda>models. ''[]'') \<rparr>"

definition sessionOf :: "ParsedMessage list \<Rightarrow> SessionWithProject" where
  "sessionOf msgs =
     \<lparr> swp_session =
         \<lparr> sd_sessionId = ''abc'', sd_title = ''fix bug'', sd_messages = msgs,
           sd_metadata = None \<rparr>,
       swp_provider = CLAUDE_CODE,
       swp_projectPath = ''/home/user/proj'',
       swp_projectName = ''proj'',
       swp_title = None,
       swp_created = ''2025-01-01T00:00:00.000Z'',
       swp_updated = ''2025-01-02T00:00:00.000Z'' \<rparr>"

definition twoMessages :: SessionWithProject where
  "twoMessages =
     sessionOf [User ''2025-01-01T00:00:00.000Z'' [Text ''fix bug''],
                AssistantText ''2025-01-01T00:00:01.000Z'' [Text ''done'']]"

definition oneMessage :: SessionWithProject where
  "oneMessage = sessionOf [User ''2025-01-01T00:00:00.000Z'' [Text ''fix bug'']]"

definition noMessages :: SessionWithProject where
  "noMessages = sessionOf []"

text \<open>
  A store that already holds the project and the session (row id 1, project 1) with one
  message row, and a store whose search connection fails at its third statement (the
  first insert of the search phase).
\<close>

definition storedOnce :: Stores where
  "storedOnce =
     \<lparr> db = freshDatabase
         (projectTables
            \<lparr> sessions :=
                [insertedSessionRow 1 (sessionData exampleJson oneMessage 1)],
              sessionsSeq := 1,
              messages :=
                [insertedMessageRow (stringifyContent exampleJson) 1
                   (convertToMessage (User ''2025-01-01T00:00:00.000Z'' [Text ''fix bug'']) 1
                      ''2025-01-01T00:00:00.000Z'' 0 None)],
              messagesSeq := 1 \<rparr>),
       searchDb = freshDatabase [] \<rparr>"


subsection \<open>\<^verbatim>\<open>importAll\<close>\<close>











text \<open>
  \<^verbatim>\<open>Math.min(...sessions.map(s => new Date(s.created).getTime()))\<close>: the date parser is
  the parameter \<open>parseDate\<close>, \<open>None\<close> for an invalid date, whose time value is
  \<^verbatim>\<open>NaN\<close>; one \<^verbatim>\<open>NaN\<close> makes the minimum \<^verbatim>\<open>NaN\<close>, and \<^verbatim>\<open>toDateTimeString(NaN)\<close>
  throws. The list is never empty.
\<close>

definition timesOf :: "(string \<Rightarrow> int option) \<Rightarrow> string list \<Rightarrow> int list option" where
  "timesOf parseDate dates =
     (if list_all (\<lambda>d. parseDate d \<noteq> None) dates then Some (map (\<lambda>d. the (parseDate d)) dates)
      else None)"

definition toDateTimeStringOfNumber :: "int option \<Rightarrow> error + string" where
  "toDateTimeStringOfNumber n = (case n of None \<Rightarrow> Inl RangeError | Some t \<Rightarrow> toDateTimeString t)"

definition minTime :: "(string \<Rightarrow> int option) \<Rightarrow> string list \<Rightarrow> int option" where
  "minTime parseDate dates = map_option (\<lambda>ts. fold min (tl ts) (hd ts)) (timesOf parseDate dates)"

definition maxTime :: "(string \<Rightarrow> int option) \<Rightarrow> string list \<Rightarrow> int option" where
  "maxTime parseDate dates = map_option (\<lambda>ts. fold max (tl ts) (hd ts)) (timesOf parseDate dates)"



definition validProjectPath :: "SessionWithProject \<Rightarrow> bool" where
  "validProjectPath s = (swp_projectPath s \<noteq> [] \<and> swp_projectPath s \<noteq> ''unknown'')"
















subsection \<open>Notions for the properties of \<^verbatim>\<open>importAll\<close>\<close>










definition groupUuid :: "string \<Rightarrow> SessionWithProject list \<Rightarrow> string" where
  "groupUuid projectName found =
     generateProjectUuid
       (if swp_projectPath (hd found) \<noteq> [] then swp_projectPath (hd found) else projectName)"



text \<open>
  The tables after the run, when no statement fails: for every project its upsert, then
  the primary write of each of its sessions with a project path.
\<close>

definition groupProject :: "(string \<Rightarrow> int option) \<Rightarrow> string \<Rightarrow> SessionWithProject list \<Rightarrow> Project" where
  "groupProject parseDate projectName found =
     \<lparr> p_projectUuid = groupUuid projectName found,
       p_name = projectName,
       p_path = Some (swp_projectPath (hd found)),
       p_createdAt = projr (toDateTimeStringOfNumber (minTime parseDate (map swp_created found))),
       p_updatedAt = projr (toDateTimeStringOfNumber (maxTime parseDate (map swp_updated found))) \<rparr>"

definition importedTables :: "Json \<Rightarrow> nat \<Rightarrow> SessionWithProject list \<Rightarrow> Tables \<Rightarrow> Tables" where
  "importedTables json projectId found t =
     fold (\<lambda>s. primaryTables json s projectId) (filter validProjectPath found) t"

definition groupTables ::
  "Json \<Rightarrow> (string \<Rightarrow> int option) \<Rightarrow> string \<times> SessionWithProject list \<Rightarrow> Tables \<Rightarrow> Tables" where
  "groupTables json parseDate g t =
     importedTables json (fst (projectsUpsert (groupProject parseDate (fst g) (snd g)) t)) (snd g)
       (snd (projectsUpsert (groupProject parseDate (fst g) (snd g)) t))"

definition runTables ::
  "Json \<Rightarrow> (string \<Rightarrow> int option) \<Rightarrow> (string \<times> SessionWithProject list) list \<Rightarrow> Tables \<Rightarrow>
   Tables" where
  "runTables json parseDate groups t = fold (groupTables json parseDate) groups t"

text \<open>
  The primary keys of the \<^verbatim>\<open>projects\<close> and \<^verbatim>\<open>sessions\<close> tables are unique, and so is the
  key \<^verbatim>\<open>UNIQUE(session_id, sequence)\<close> of the \<^verbatim>\<open>messages\<close> table.
\<close>

definition uniqueKeys :: "Tables \<Rightarrow> bool" where
  "uniqueKeys t \<longleftrightarrow>
     distinct (map pr_id (projects t)) \<and> distinct (map sn_id (sessions t))
   \<and> uniqueMessageKeys t"





section \<open>Properties\<close>

subsection \<open>Timestamp unit detection\<close>

lemma toISOString_epoch_1e12: "toISOString 1000000000000 = Inr ''2001-09-09T01:46:40.000Z''"
  by code_simp

lemma toISOString_epoch_1e15: "toISOString 1000000000000000 = Inr ''+033658-09-27T01:46:40.000Z''"
  by code_simp

text \<open>
  Away from the boundary the unit is detected as the specification says: a value above
  \<open>10^12\<close> is converted as it is, a value below \<open>10^12\<close> is multiplied by 1000 first.
\<close>

lemma toDateTimeString_above:
  "1000000000000 < t \<Longrightarrow> toDateTimeString t = toISOString t"
  by (simp add: toDateTimeString_def epochMillis_def)

lemma toDateTimeString_below:
  "t < 1000000000000 \<Longrightarrow> toDateTimeString t = toISOString (t * 1000)"
  by (simp add: toDateTimeString_def epochMillis_def)

text \<open>
  C8, at the failing input \<open>10^12\<close>: the claim, and the comment on the copy of the
  function in the importer (\<^verbatim>\<open>milliseconds (13 digits) or seconds (10 digits)\<close>; \<open>10^12\<close>
  has 13 digits), take the boundary value as milliseconds, the date
  2001-09-09T01:46:40.000Z. The comparison
  \<^verbatim>\<open>timestamp > 1_000_000_000_000\<close> is strict, so the code takes the value as seconds and
  multiplies it by 1000: the result is a date in the year 33658.
\<close>

theorem toDateTimeString_boundary_as_seconds:
  "toDateTimeString 1000000000000 = Inr ''+033658-09-27T01:46:40.000Z''
   \<and> toISOString 1000000000000 = Inr ''2001-09-09T01:46:40.000Z''
   \<and> toDateTimeString 1000000000000 \<noteq> toISOString 1000000000000"
  by (simp add: toDateTimeString_def epochMillis_def toISOString_epoch_1e12
      toISOString_epoch_1e15)

subsection \<open>The tool-call correlator\<close>

lemma resultsFor_Cons:
  "resultsFor c (x # xs) =
     (if isToolResult x \<and> toolCallIdOf x = Some c \<and> c \<noteq> [] then x # resultsFor c xs
      else resultsFor c xs)"
  by (simp add: resultsFor_def)

lemma resultsFor_Nil: "resultsFor c [] = []"
  by (simp add: resultsFor_def)

lemma resultsFor_append: "resultsFor c (xs @ ys) = resultsFor c xs @ resultsFor c ys"
  by (simp add: resultsFor_def)

lemma resultsFor_none:
  "\<forall>m \<in> set xs. toolCallIdOf m \<noteq> Some c \<Longrightarrow> resultsFor c xs = []"
  by (induction xs) (simp_all add: resultsFor_Nil resultsFor_Cons)

text \<open>The map of the first pass holds, under each non-empty identifier, the results
  bearing it, in list order.\<close>

lemma collectToolResults_lookup:
  "collectToolResults msgs m c =
     (if resultsFor c msgs = [] then m c
      else Some ((case m c of None \<Rightarrow> [] | Some l \<Rightarrow> l) @ resultsFor c msgs))"
proof (induction msgs arbitrary: m)
  case Nil
  then show ?case by (simp add: resultsFor_Nil)
next
  case (Cons x xs)
  show ?case
  proof (cases x)
    case (ToolResultMsg ts tn callId out err)
    then show ?thesis
      using Cons.IH
      by (cases callId) (auto simp: resultsFor_Cons truthy_def split: option.splits)
  qed (simp_all add: Cons.IH resultsFor_Cons)
qed

lemma collectToolResults_empty:
  "collectToolResults msgs Map.empty c =
     (if resultsFor c msgs = [] then None else Some (resultsFor c msgs))"
  by (simp add: collectToolResults_lookup)

lemma hasMatchingToolUse_mem:
  "ToolUse ts name callId inp res \<in> set rawMessages \<Longrightarrow> hasMatchingToolUse rawMessages callId"
  by (auto simp: hasMatchingToolUse_def list_ex_iff
      intro!: bexI [where x = "ToolUse ts name callId inp res"])

lemma hasMatchingToolUse_append:
  "hasMatchingToolUse (xs @ ys) c \<longleftrightarrow> hasMatchingToolUse xs c \<or> hasMatchingToolUse ys c"
  by (simp add: hasMatchingToolUse_def)

text \<open>The loop, message by message: the state \<^verbatim>\<open>connectedCallIds\<close> drops out.\<close>

lemma connectLoop_emitted:
  "\<lbrakk> \<forall>c \<in> connected. hasMatchingToolUse rawMessages (Some c); set msgs \<subseteq> set rawMessages \<rbrakk>
   \<Longrightarrow> connectLoop stringify byId rawMessages msgs connected result =
       result @ concat (map (emitted stringify byId rawMessages) msgs)"
proof (induction msgs arbitrary: connected result)
  case Nil
  then show ?case by simp
next
  case (Cons x xs)
  from Cons.prems have sub: "set xs \<subseteq> set rawMessages" and mem: "x \<in> set rawMessages"
    by auto
  show ?case
  proof (cases x)
    case (ToolUse ts name callId inp res)
    show ?thesis
    proof (cases "truthy callId \<and> byId (the callId) \<noteq> None")
      case True
      then obtain c where c: "callId = Some c" by (cases callId) (auto simp: truthy_def)
      have "hasMatchingToolUse rawMessages (Some c)"
        using mem ToolUse c hasMatchingToolUse_mem by blast
      with Cons.prems(1) have inv: "\<forall>d \<in> insert c connected. hasMatchingToolUse rawMessages (Some d)"
        by simp
      show ?thesis
        using True ToolUse c Cons.IH [OF inv sub] by simp
    next
      case False
      then show ?thesis
        using ToolUse Cons.IH [OF Cons.prems(1) sub] by auto
    qed
  next
    case (ToolResultMsg ts tn callId out err)
    show ?thesis
    proof (cases "\<not> truthy callId \<or> the callId \<notin> connected")
      case True
      then show ?thesis
        using ToolResultMsg Cons.IH [OF Cons.prems(1) sub] by auto
    next
      case False
      then obtain c where c: "callId = Some c" "c \<in> connected"
        by (cases callId) (auto simp: truthy_def)
      with Cons.prems(1) have "hasMatchingToolUse rawMessages callId" by simp
      then show ?thesis
        using False ToolResultMsg Cons.IH [OF Cons.prems(1) sub] by auto
    qed
  qed (simp_all add: Cons.IH [OF Cons.prems(1) sub])
qed

lemma connectToolResultsToToolUse_emitted:
  "connectToolResultsToToolUse stringify rawMessages =
     concat (map (emitted stringify (collectToolResults rawMessages Map.empty) rawMessages)
        rawMessages)"
  by (simp add: connectToolResultsToToolUse_def connectLoop_emitted)

lemma emitted_toolCallIdOf:
  "y \<in> set (emitted stringify byId rawMessages m) \<Longrightarrow> toolCallIdOf y = toolCallIdOf m"
  by (cases m) (auto split: if_splits)

lemma filter_emitted_other:
  "toolCallIdOf m \<noteq> Some c \<Longrightarrow>
   filter (\<lambda>y. toolCallIdOf y = Some c) (emitted stringify byId rawMessages m) = []"
  by (auto simp: filter_empty_conv dest: emitted_toolCallIdOf)

lemma filter_emitted_others:
  "\<forall>m \<in> set xs. toolCallIdOf m \<noteq> Some c \<Longrightarrow>
   filter (\<lambda>y. toolCallIdOf y = Some c)
     (concat (map (emitted stringify byId rawMessages) xs)) = []"
  by (induction xs) (simp_all add: filter_emitted_other)

text \<open>
  The correlated pair in any context whose messages do not bear its identifier: of the
  messages bearing \<open>c\<close>, the output holds the \<^verbatim>\<open>tool_use\<close> with the one result, and
  nothing else.
\<close>

lemma correlated_pair:
  assumes others: "\<forall>m \<in> set (xs @ ys @ zs). toolCallIdOf m \<noteq> Some c"
    and c: "c \<noteq> []"
  shows "filter (\<lambda>y. toolCallIdOf y = Some c)
           (connectToolResultsToToolUse stringify
              (xs @ [ToolUse ts name (Some c) inp res] @ ys
                 @ [ToolResultMsg ts' tn (Some c) out err] @ zs))
         = [ToolUse ts name (Some c) inp
              [toToolResult stringify (ToolResultMsg ts' tn (Some c) out err)]]"
proof -
  let ?tu = "ToolUse ts name (Some c) inp res"
  let ?tr = "ToolResultMsg ts' tn (Some c) out err"
  let ?all = "xs @ [?tu] @ ys @ [?tr] @ zs"
  let ?byId = "collectToolResults ?all Map.empty"
  let ?P = "\<lambda>y. toolCallIdOf y = Some c"
  from others have oxs: "\<forall>m \<in> set xs. toolCallIdOf m \<noteq> Some c"
    and oys: "\<forall>m \<in> set ys. toolCallIdOf m \<noteq> Some c"
    and ozs: "\<forall>m \<in> set zs. toolCallIdOf m \<noteq> Some c"
    by auto
  have rf: "resultsFor c ?all = [?tr]"
    using c by (simp add: resultsFor_append resultsFor_Cons resultsFor_Nil
        resultsFor_none [OF oxs] resultsFor_none [OF oys] resultsFor_none [OF ozs])
  have byId: "?byId c = Some [?tr]"
    by (simp only: collectToolResults_empty rf) simp
  have match: "hasMatchingToolUse ?all (Some c)"
    by (rule hasMatchingToolUse_mem [where ts = ts and name = name and inp = inp and res = res])
       simp
  have tu: "emitted stringify ?byId ?all ?tu
              = [ToolUse ts name (Some c) inp [toToolResult stringify ?tr]]"
    using c byId by (simp add: truthy_def)
  have tr: "emitted stringify ?byId ?all ?tr = []"
    using match by simp
  have "filter ?P (connectToolResultsToToolUse stringify ?all)
          = filter ?P (concat (map (emitted stringify ?byId ?all) xs))
            @ filter ?P (emitted stringify ?byId ?all ?tu)
            @ filter ?P (concat (map (emitted stringify ?byId ?all) ys))
            @ filter ?P (emitted stringify ?byId ?all ?tr)
            @ filter ?P (concat (map (emitted stringify ?byId ?all) zs))"
    by (simp only: connectToolResultsToToolUse_emitted map_append concat_append
        filter_append list.map concat.simps append_Nil2)
  also have "\<dots> = [ToolUse ts name (Some c) inp [toToolResult stringify ?tr]]"
    by (simp only: filter_emitted_others [OF oxs] filter_emitted_others [OF oys]
        filter_emitted_others [OF ozs] tu tr) simp
  finally show ?thesis .
qed

text \<open>
  C2. For a message list holding a \<^verbatim>\<open>tool_use\<close> with \<^verbatim>\<open>toolName\<close> "Read" and
  \<^verbatim>\<open>toolCallId\<close> "c1" and, anywhere later, the \<^verbatim>\<open>tool_result\<close> with \<^verbatim>\<open>toolCallId\<close> "c1"
  whose output is the single code block "file contents" (the other messages \<open>xs\<close>, \<open>ys\<close>,
  \<open>zs\<close> of the list bearing other identifiers or none), the correlator's output holds
  exactly one message derived from the pair: the \<^verbatim>\<open>tool_use\<close> with \<^verbatim>\<open>results\<close> equal to
  \<^verbatim>\<open>[{output: "file contents", isError: false, toolCallId: "c1"}]\<close>. No standalone
  \<^verbatim>\<open>tool_result\<close> with \<^verbatim>\<open>toolCallId\<close> "c1" is in the output.
\<close>

theorem correlate_Read_c1:
  assumes "\<forall>m \<in> set (xs @ ys @ zs). toolCallIdOf m \<noteq> Some ''c1''"
  shows "filter (\<lambda>y. toolCallIdOf y = Some ''c1'')
           (connectToolResultsToToolUse stringify
              (xs @ [ToolUse ts ''Read'' (Some ''c1'') inp res] @ ys
                 @ [ToolResultMsg ts' tn (Some ''c1'') [Code ''file contents'' lang] False] @ zs))
         = [ToolUse ts ''Read'' (Some ''c1'') inp
              [\<lparr> tr_output = ''file contents'', tr_isError = False,
                 tr_toolCallId = Some ''c1'' \<rparr>]]"
  using correlated_pair [OF assms, of stringify ts "''Read''" inp res ts' tn
      "[Code ''file contents'' lang]" False]
  by simp

text \<open>
  The scenario of C2 on its own, and inside a session with a second, unrelated pair:
  the whole output of the correlator.
\<close>

theorem correlate_Read_c1_witness:
  "connectToolResultsToToolUse (\<lambda>out. [])
     [ToolUse ''t1'' ''Read'' (Some ''c1'') [(''file_path'', ''a.txt'')] [],
      ToolResultMsg ''t2'' None (Some ''c1'') [Code ''file contents'' None] False]
   = [ToolUse ''t1'' ''Read'' (Some ''c1'') [(''file_path'', ''a.txt'')]
        [\<lparr> tr_output = ''file contents'', tr_isError = False, tr_toolCallId = Some ''c1'' \<rparr>]]
   \<and> filter (\<lambda>y. toolCallIdOf y = Some ''c1'')
       (connectToolResultsToToolUse (\<lambda>out. [])
          ([User ''t0'' [Text ''read it'']]
           @ [ToolUse ''t1'' ''Read'' (Some ''c1'') [(''file_path'', ''a.txt'')] []]
           @ [ToolUse ''t2'' ''Bash'' (Some ''c2'') [] []]
           @ [ToolResultMsg ''t3'' None (Some ''c1'') [Code ''file contents'' None] False]
           @ [ToolResultMsg ''t4'' None (Some ''c2'') [] False]))
     = [ToolUse ''t1'' ''Read'' (Some ''c1'') [(''file_path'', ''a.txt'')]
          [\<lparr> tr_output = ''file contents'', tr_isError = False, tr_toolCallId = Some ''c1'' \<rparr>]]"
proof -
  have one: "filter (\<lambda>y. toolCallIdOf y = Some ''c1'')
       (connectToolResultsToToolUse (\<lambda>out. [])
          ([] @ [ToolUse ''t1'' ''Read'' (Some ''c1'') [(''file_path'', ''a.txt'')] []] @ []
           @ [ToolResultMsg ''t2'' None (Some ''c1'') [Code ''file contents'' None] False] @ []))
     = [ToolUse ''t1'' ''Read'' (Some ''c1'') [(''file_path'', ''a.txt'')]
          [\<lparr> tr_output = ''file contents'', tr_isError = False, tr_toolCallId = Some ''c1'' \<rparr>]]"
    by (rule correlate_Read_c1) simp
  have len: "connectToolResultsToToolUse (\<lambda>out. [])
     [ToolUse ''t1'' ''Read'' (Some ''c1'') [(''file_path'', ''a.txt'')] [],
      ToolResultMsg ''t2'' None (Some ''c1'') [Code ''file contents'' None] False]
   = [ToolUse ''t1'' ''Read'' (Some ''c1'') [(''file_path'', ''a.txt'')]
        [\<lparr> tr_output = ''file contents'', tr_isError = False, tr_toolCallId = Some ''c1'' \<rparr>]]"
    by (simp add: connectToolResultsToToolUse_def truthy_def hasMatchingToolUse_def)
  have two: "filter (\<lambda>y. toolCallIdOf y = Some ''c1'')
       (connectToolResultsToToolUse (\<lambda>out. [])
          ([User ''t0'' [Text ''read it'']]
           @ [ToolUse ''t1'' ''Read'' (Some ''c1'') [(''file_path'', ''a.txt'')] []]
           @ [ToolUse ''t2'' ''Bash'' (Some ''c2'') [] []]
           @ [ToolResultMsg ''t3'' None (Some ''c1'') [Code ''file contents'' None] False]
           @ [ToolResultMsg ''t4'' None (Some ''c2'') [] False]))
     = [ToolUse ''t1'' ''Read'' (Some ''c1'') [(''file_path'', ''a.txt'')]
          [\<lparr> tr_output = ''file contents'', tr_isError = False, tr_toolCallId = Some ''c1'' \<rparr>]]"
    by (rule correlate_Read_c1) simp
  from one len two show ?thesis by simp
qed

text \<open>
  C3, at the input the claim singles out: a \<^verbatim>\<open>tool_use\<close> without identifier and a
  \<^verbatim>\<open>tool_result\<close> without identifier. The result is uncorrelated (the \<^verbatim>\<open>tool_use\<close>
  keeps its own \<^verbatim>\<open>results\<close>), and it is not in the output: \<^verbatim>\<open>hasMatchingToolUse\<close>
  compares two absent identifiers as equal.
\<close>

theorem uncorrelated_result_dropped:
  "connectToolResultsToToolUse stringify
     [ToolUse ts ''Bash'' None inp [], ToolResultMsg ts' tn None out err]
   = [ToolUse ts ''Bash'' None inp []]"
  by (simp add: connectToolResultsToToolUse_def truthy_def hasMatchingToolUse_def)

text \<open>
  What the correlator does keep: a \<^verbatim>\<open>tool_result\<close> is in the output exactly when no
  \<^verbatim>\<open>tool_use\<close> of the list has an equal \<^verbatim>\<open>toolCallId\<close>, two absent identifiers being
  equal.
\<close>

lemma tool_result_retained_iff:
  "ToolResultMsg ts tn callId out err \<in> set (connectToolResultsToToolUse stringify rawMessages)
   \<longleftrightarrow> ToolResultMsg ts tn callId out err \<in> set rawMessages
       \<and> \<not> hasMatchingToolUse rawMessages callId"
proof -
  have "\<And>m byId. ToolResultMsg ts tn callId out err \<in> set (emitted stringify byId rawMessages m)
        \<longleftrightarrow> m = ToolResultMsg ts tn callId out err \<and> \<not> hasMatchingToolUse rawMessages callId"
    subgoal for m byId by (cases m) auto
    done
  then show ?thesis
    by (auto simp: connectToolResultsToToolUse_emitted)
qed

subsection \<open>The cap on the number of search results\<close>

lemma length_insertRow: "length (insertRow prec x xs) = Suc (length xs)"
  by (induction xs) simp_all

lemma length_orderBy: "length (orderBy prec xs) = length xs"
  by (induction xs) (simp_all add: length_insertRow)

lemma length_sqlLimit:
  "length (sqlLimit n rows) = (if n < 0 then length rows else min (nat n) (length rows))"
  by (simp add: sqlLimit_def min_def)

text \<open>
  With a limit that is not negative, neither function returns more than the smaller of
  the limit and \<^verbatim>\<open>MAX_LIMIT\<close> rows.
\<close>

lemma search_capped:
  assumes "0 \<le> l" and "search eng rows query (Some l) = Inr rs"
  shows "int (length rs) \<le> min l MAX_LIMIT"
  using assms
  by (auto simp: search_def Let_def length_sqlLimit length_orderBy MAX_LIMIT_def
      split: if_splits)

lemma searchByProject_capped:
  assumes "0 \<le> l" and "searchByProject eng rows projectName query (Some l) = Inr rs"
  shows "int (length rs) \<le> min l MAX_LIMIT"
  using assms
  by (auto simp: searchByProject_def Let_def length_sqlLimit length_orderBy MAX_LIMIT_def
      split: if_splits)

lemma search_default_capped:
  assumes "search eng rows query None = Inr rs"
  shows "length rs \<le> 50"
  using assms
  by (auto simp: search_def Let_def length_sqlLimit length_orderBy MAX_LIMIT_def
      split: if_splits)

text \<open>With a negative limit both functions return every matching row.\<close>

lemma search_negative_limit:
  assumes "l < 0" and "ftsAccepts eng (escapeFts5Query query)"
  shows "\<exists>rs. search eng rows query (Some l) = Inr rs
           \<and> length rs = length (filter (ftsMatch eng (escapeFts5Query query)) rows)"
  using assms
  by (simp add: search_def Let_def length_sqlLimit length_orderBy MAX_LIMIT_def)

lemma searchByProject_negative_limit:
  assumes "l < 0" and "ftsAccepts eng (escapeFts5Query query)"
  shows "\<exists>rs. searchByProject eng rows projectName query (Some l) = Inr rs
           \<and> length rs = length (filter (\<lambda>e. ftsMatch eng (escapeFts5Query query) e
                  \<and> se_projectName e = projectName) rows)"
  using assms
  by (simp add: searchByProject_def Let_def length_sqlLimit length_orderBy MAX_LIMIT_def)

lemma escapeFts5Query_findme:
  "escapeFts5Query ''findme'' = [CHR 0x22] @ ''findme'' @ [CHR 0x22]"
  by (simp add: escapeFts5Query_def escapeFts5Value_def trim_def isWhiteSpace_def)

lemma findme_matches:
  "ftsMatch substringEngine (escapeFts5Query ''findme'') findmeEntry"
  by (simp add: escapeFts5Query_findme substringEngine_def findmeEntry_def)

text \<open>
  C6, at a failing input: 101 rows that match "findme" and the requested limit \<open>-1\<close>.
  \<^verbatim>\<open>Math.min(-1, MAX_LIMIT)\<close> is \<open>-1\<close>, SQLite reads \<^verbatim>\<open>LIMIT -1\<close> as no limit, and
  both functions return all 101 rows, one more than \<^verbatim>\<open>MAX_LIMIT\<close>.
\<close>

theorem search_negative_limit_exceeds_cap:
  "(\<exists>rs. search substringEngine (replicate 101 findmeEntry) ''findme'' (Some (- 1)) = Inr rs
        \<and> length rs = 101)
   \<and> (\<exists>rs. searchByProject substringEngine (replicate 101 findmeEntry) ''test-project''
          ''findme'' (Some (- 1)) = Inr rs
        \<and> length rs = 101)"
proof -
  have acc: "ftsAccepts substringEngine (escapeFts5Query ''findme'')"
    by (simp add: substringEngine_def)
  have n1: "length (filter (ftsMatch substringEngine (escapeFts5Query ''findme''))
              (replicate 101 findmeEntry)) = 101"
    using findme_matches by simp
  have n2: "length (filter (\<lambda>e. ftsMatch substringEngine (escapeFts5Query ''findme'') e
                \<and> se_projectName e = ''test-project'') (replicate 101 findmeEntry)) = 101"
    using findme_matches by (simp add: findmeEntry_def)
  show ?thesis
    using search_negative_limit [of "- 1" substringEngine "''findme''" "replicate 101 findmeEntry", OF _ acc]
      searchByProject_negative_limit [of "- 1" substringEngine "''findme''"
        "replicate 101 findmeEntry" "''test-project''", OF _ acc]
    by (simp only: n1 n2)
qed

subsection \<open>Project identifiers\<close>

lemma length_sha1: "length (sha1 msg) = 20"
  by (simp add: sha1_def Let_def bytesOfWord32_def split: prod.splits)

lemma length_setVersionAndVariant: "length (setVersionAndVariant d) = length d"
  by (simp add: setVersionAndVariant_def Let_def)

lemma setVersionAndVariant_6:
  "6 < length d \<Longrightarrow> setVersionAndVariant d ! 6 = (d ! 6 AND 0x0F) OR 0x50"
  by (simp add: setVersionAndVariant_def Let_def)

lemma setVersionAndVariant_8:
  "8 < length d \<Longrightarrow> setVersionAndVariant d ! 8 = (d ! 8 AND 0x3F) OR 0x80"
  by (simp add: setVersionAndVariant_def Let_def)

lemma length_toHex: "length (toHex bs) = 2 * length bs"
  by (induction bs) (simp_all add: toHex_def)

lemma toHex_Cons: "toHex (b # bs) = hexDigit (drop_bit 4 b) # hexDigit b # toHex bs"
  by (simp add: toHex_def)

lemma toHex_nth_even: "i < length bs \<Longrightarrow> toHex bs ! (2 * i) = hexDigit (drop_bit 4 (bs ! i))"
proof (induction bs arbitrary: i)
  case Nil
  then show ?case by simp
next
  case (Cons b bs)
  show ?case
  proof (cases i)
    case 0
    then show ?thesis by (simp add: toHex_Cons)
  next
    case (Suc j)
    with Cons.prems have "j < length bs" by simp
    then show ?thesis using Suc Cons.IH [of j] by (simp add: toHex_Cons)
  qed
qed

lemma hexDigit_isLowerHex: "isLowerHex (hexDigit n)"
proof -
  have "unat (n AND 0x0F) \<le> unat (0x0F :: byte)"
    by (rule word_and_le1 [THEN word_le_nat_alt [THEN iffD1]])
  then have "unat (n AND 0x0F) < length ''0123456789abcdef''" by simp
  then have "''0123456789abcdef'' ! unat (n AND 0x0F) \<in> set ''0123456789abcdef''"
    by (rule nth_mem)
  then show ?thesis by (simp only: isLowerHex_def hexDigit_def)
qed

lemma toHex_isLowerHex: "list_all isLowerHex (toHex bs)"
  by (induction bs) (simp_all add: toHex_Cons hexDigit_isLowerHex, simp add: toHex_def)

lemma version_nibble: "hexDigit (drop_bit 4 ((x AND 0x0F) OR 0x50)) = CHR ''5''"
  by (simp add: hexDigit_def)

lemma and3_cases: "(y::byte) AND 3 = 0 \<or> y AND 3 = 1 \<or> y AND 3 = 2 \<or> y AND 3 = 3"
proof -
  define w where "w = y AND 3"
  have "unat w \<le> unat (3 :: byte)"
    unfolding w_def by (rule word_and_le1 [THEN word_le_nat_alt [THEN iffD1]])
  then have "unat w < 4" by simp
  then consider "unat w = 0" | "unat w = 1" | "unat w = 2" | "unat w = 3"
    by arith
  then have "w = 0 \<or> w = 1 \<or> w = 2 \<or> w = 3"
    by cases (simp_all add: word_unat_eq_iff)
  then show ?thesis by (simp add: w_def)
qed

lemma variant_nibble: "hexDigit (drop_bit 4 ((x AND 0x3F) OR 0x80)) \<in> set ''89ab''"
proof -
  have eq: "drop_bit 4 ((x AND 0x3F) OR 0x80) = (drop_bit 4 x AND 3) OR 8"
    by simp
  from and3_cases [of "drop_bit 4 x"] show ?thesis
    unfolding eq by (elim disjE) (simp_all add: hexDigit_def)
qed

text \<open>
  C10. For every input, \<^verbatim>\<open>generateProjectUuid\<close> returns 36 characters: five groups of
  lower-case hexadecimal digits of lengths 8, 4, 4, 4 and 12, joined by hyphens; the
  first digit of the third group is 5, and the first digit of the fourth group is one
  of 8, 9, a, b. The result is a function of the argument alone (the namespace is a
  constant; nothing else is read), so equal inputs give equal outputs.
\<close>

theorem generateProjectUuid_well_formed:
  "\<exists>g1 g2 g3 g4 g5.
      generateProjectUuid p = g1 @ ''-'' @ g2 @ ''-'' @ g3 @ ''-'' @ g4 @ ''-'' @ g5
      \<and> length g1 = 8 \<and> length g2 = 4 \<and> length g3 = 4 \<and> length g4 = 4 \<and> length g5 = 12
      \<and> list_all isLowerHex (g1 @ g2 @ g3 @ g4 @ g5)
      \<and> hd g3 = CHR ''5''
      \<and> hd g4 \<in> set ''89ab''
      \<and> length (generateProjectUuid p) = 36"
proof -
  define d where "d = setVersionAndVariant (sha1 (utf8 PROJECT_NAMESPACE @ utf8 (normalizedPath p)))"
  define h where "h = toHex d"
  have ld: "length d = 20"
    by (simp add: d_def length_setVersionAndVariant length_sha1)
  have lh: "length h = 40"
    by (simp add: h_def length_toHex ld)
  have d6: "d ! 6 = (sha1 (utf8 PROJECT_NAMESPACE @ utf8 (normalizedPath p)) ! 6 AND 0x0F) OR 0x50"
    unfolding d_def by (rule setVersionAndVariant_6) (simp add: length_sha1)
  have d8: "d ! 8 = (sha1 (utf8 PROJECT_NAMESPACE @ utf8 (normalizedPath p)) ! 8 AND 0x3F) OR 0x80"
    unfolding d_def by (rule setVersionAndVariant_8) (simp add: length_sha1)
  have "h ! 12 = hexDigit (drop_bit 4 (d ! 6))"
    using toHex_nth_even [of 6 d] ld by (simp add: h_def)
  then have h12: "h ! 12 = CHR ''5''"
    by (simp only: d6 version_nibble)
  have "h ! 16 = hexDigit (drop_bit 4 (d ! 8))"
    using toHex_nth_even [of 8 d] ld by (simp add: h_def)
  then have h16: "h ! 16 \<in> set ''89ab''"
    by (simp only: d8 variant_nibble)
  have hex: "list_all isLowerHex h"
    by (simp add: h_def toHex_isLowerHex)
  have uuid: "generateProjectUuid p =
      substring 0 8 h @ ''-'' @ substring 8 12 h @ ''-'' @ substring 12 16 h @ ''-''
      @ substring 16 20 h @ ''-'' @ substring 20 32 h"
    by (simp add: generateProjectUuid_def Let_def d_def h_def)
  have g3: "hd (substring 12 16 h) = h ! 12"
    using lh by (simp add: substring_def hd_drop_conv_nth)
  have g4: "hd (substring 16 20 h) = h ! 16"
    using lh by (simp add: substring_def hd_drop_conv_nth)
  have allhex: "list_all isLowerHex
      (substring 0 8 h @ substring 8 12 h @ substring 12 16 h @ substring 16 20 h
       @ substring 20 32 h)"
    using hex by (auto simp: substring_def list_all_iff dest: in_set_takeD in_set_dropD)
  have lens: "length (substring 0 8 h) = 8" "length (substring 8 12 h) = 4"
    "length (substring 12 16 h) = 4" "length (substring 16 20 h) = 4"
    "length (substring 20 32 h) = 12"
    using lh by (simp_all add: substring_def)
  have len36: "length (generateProjectUuid p) = 36"
    by (simp add: uuid lens)
  show ?thesis
    apply (rule exI [of _ "substring 0 8 h"])
    apply (rule exI [of _ "substring 8 12 h"])
    apply (rule exI [of _ "substring 12 16 h"])
    apply (rule exI [of _ "substring 16 20 h"])
    apply (rule exI [of _ "substring 20 32 h"])
    apply (intro conjI)
             apply (rule uuid)
            apply (rule lens)+
        apply (rule allhex)
       apply (simp only: g3 h12)
      apply (simp only: g4 h16)
     apply (rule len36)
    done
qed

lemma lowerChar_slash: "lowerChar c = CHR ''/'' \<longleftrightarrow> c = CHR ''/''"
  by (auto simp: lowerChar_def less_eq_char_def char_of_eq_iff take_bit_eq_mod)

lemma lowerChar_backslash: "lowerChar c = CHR 0x5C \<longleftrightarrow> c = CHR 0x5C"
  by (auto simp: lowerChar_def less_eq_char_def char_of_eq_iff take_bit_eq_mod)

lemma lowerChar_fixes_slash: "lowerChar CHR ''/'' = CHR ''/''"
  by (simp add: lowerChar_slash)

text \<open>
  The order of the three normalisation steps does not matter: lower-casing neither
  makes nor removes a separator. The specification's wording and the code's expression
  are the same function.
\<close>

lemma normalizeSpec_normalizedPath: "normalizeSpec p = normalizedPath p"
proof -
  have unify: "map (\<lambda>c. if c = CHR 0x5C then CHR ''/'' else c) (map lowerChar p)
                = map lowerChar (backslashesToSlashes p)"
    by (induction p)
       (simp_all add: backslashesToSlashes_def lowerChar_backslash lowerChar_fixes_slash)
  have strip: "(if map lowerChar s \<noteq> [] \<and> last (map lowerChar s) = CHR ''/''
                then butlast (map lowerChar s) else map lowerChar s)
               = map lowerChar (removeTrailingSlash s)" for s
    by (cases "s = []")
       (simp_all add: removeTrailingSlash_def last_map map_butlast lowerChar_slash)
  show ?thesis
    unfolding normalizeSpec_def normalizedPath_def toLowerCase_def Let_def unify
    by (rule strip)
qed

lemma generateProjectUuid_cong:
  "normalizedPath p = normalizedPath q \<Longrightarrow> generateProjectUuid p = generateProjectUuid q"
  by (simp add: generateProjectUuid_def)

lemma normalizedPath_Home_User_Proj: "normalizedPath ''/Home/User/Proj/'' = ''/home/user/proj''"
  by code_simp

lemma normalizedPath_home_user_proj: "normalizedPath ''/home/user/proj'' = ''/home/user/proj''"
  by code_simp

text \<open>
  C5. \<^verbatim>\<open>generateProjectUuid\<close> gives equal identifiers for any two raw paths that are
  equal after converting backslashes to forward slashes, removing a trailing separator
  and lower-casing; \<^verbatim>\<open>generateProjectUuid("/Home/User/Proj/")\<close> equals
  \<^verbatim>\<open>generateProjectUuid("/home/user/proj")\<close>.
\<close>

theorem generateProjectUuid_normalization:
  "(normalizeSpec p = normalizeSpec q \<longrightarrow> generateProjectUuid p = generateProjectUuid q)
   \<and> (normalizedPath p = normalizedPath q \<longrightarrow> generateProjectUuid p = generateProjectUuid q)
   \<and> generateProjectUuid ''/Home/User/Proj/'' = generateProjectUuid ''/home/user/proj''"
proof (intro conjI impI)
  assume "normalizeSpec p = normalizeSpec q"
  then have "normalizedPath p = normalizedPath q"
    by (simp only: normalizeSpec_normalizedPath)
  then show "generateProjectUuid p = generateProjectUuid q"
    by (rule generateProjectUuid_cong)
next
  assume "normalizedPath p = normalizedPath q"
  then show "generateProjectUuid p = generateProjectUuid q"
    by (rule generateProjectUuid_cong)
next
  show "generateProjectUuid ''/Home/User/Proj/'' = generateProjectUuid ''/home/user/proj''"
    by (rule generateProjectUuid_cong)
       (simp only: normalizedPath_Home_User_Proj normalizedPath_home_user_proj)
qed

text \<open>
  A Windows path with backslashes, capitals and a trailing separator, and its
  normalised form.
\<close>

lemma normalizeSpec_windows:
  "normalizeSpec [CHR ''C'', CHR '':'', CHR 0x5C, CHR ''U'', CHR ''s'', CHR ''e'', CHR ''r'',
      CHR ''s'', CHR 0x5C, CHR ''M'', CHR ''e'', CHR 0x5C] = ''c:/users/me''"
  by code_simp

lemma normalizeSpec_unix: "normalizeSpec ''c:/users/me'' = ''c:/users/me''"
  by code_simp

theorem generateProjectUuid_normalization_witness:
  "generateProjectUuid [CHR ''C'', CHR '':'', CHR 0x5C, CHR ''U'', CHR ''s'', CHR ''e'', CHR ''r'',
      CHR ''s'', CHR 0x5C, CHR ''M'', CHR ''e'', CHR 0x5C] = generateProjectUuid ''c:/users/me''"
  using generateProjectUuid_normalization
    [of "[CHR ''C'', CHR '':'', CHR 0x5C, CHR ''U'', CHR ''s'', CHR ''e'', CHR ''r'',
          CHR ''s'', CHR 0x5C, CHR ''M'', CHR ''e'', CHR 0x5C]" "''c:/users/me''"]
  by (simp only: normalizeSpec_windows normalizeSpec_unix)

subsection \<open>Statements that succeed\<close>

lemma exec_ok:
  "\<not> failAt d (executed d) \<Longrightarrow>
   exec f d = (Inr (fst (f (current d))),
               d\<lparr>current := snd (f (current d)),
                 committed := (if inTransaction d then committed d else snd (f (current d))),
                 executed := Suc (executed d)\<rparr>)"
  by (simp add: exec_def split: prod.splits)

lemma execConstrained_ok:
  "\<lbrakk> \<not> failAt d (executed d); statement (current d) = (Inr a, t) \<rbrakk> \<Longrightarrow>
   execConstrained statement d
     = (Inr a, d\<lparr>current := t,
                 committed := (if inTransaction d then committed d else t),
                 executed := Suc (executed d)\<rparr>)"
  by (simp add: execConstrained_def)

text \<open>The foreign keys hold when the row referred to is there.\<close>

lemma sessionsUpsert_ok:
  "s_projectId s \<in> set (map pr_id (projects t)) \<Longrightarrow>
   sessionsUpsert s t = (Inr (fst (sessionsUpsertRows s t)), snd (sessionsUpsertRows s t))"
  by (simp add: sessionsUpsert_def)

lemma messagesUpsert_ok:
  "rm_sessionId c \<in> set (map sn_id (sessions t)) \<Longrightarrow>
   messagesUpsert f c t = (Inr (fst (messagesUpsertRows f c t)), snd (messagesUpsertRows f c t))"
  by (simp add: messagesUpsert_def)

lemma sessionsUpsertRows_messages [simp]:
  "messages (snd (sessionsUpsertRows s t)) = messages t"
  "messagesSeq (snd (sessionsUpsertRows s t)) = messagesSeq t"
  "projects (snd (sessionsUpsertRows s t)) = projects t"
  "projectsSeq (snd (sessionsUpsertRows s t)) = projectsSeq t"
  by (simp_all add: sessionsUpsertRows_def Let_def split: option.splits)

lemma messagesUpsertRows_sessions [simp]:
  "sessions (snd (messagesUpsertRows f c t)) = sessions t"
  "sessionsSeq (snd (messagesUpsertRows f c t)) = sessionsSeq t"
  "projects (snd (messagesUpsertRows f c t)) = projects t"
  "projectsSeq (snd (messagesUpsertRows f c t)) = projectsSeq t"
  by (simp_all add: messagesUpsertRows_def Let_def split: option.splits)

lemma sessionsUpsertRows_id:
  "fst (sessionsUpsertRows s t) \<in> set (map sn_id (sessions (snd (sessionsUpsertRows s t))))"
proof (cases "find (sessionConflict s) (sessions t)")
  case None
  then show ?thesis by (simp add: sessionsUpsertRows_def Let_def insertedSessionRow_def)
next
  case (Some existing)
  then have "existing \<in> set (sessions t)" by (auto simp: find_Some_iff)
  then have "sn_id existing \<in> sn_id ` set (sessions t)" by (rule imageI)
  moreover have "map sn_id (map (\<lambda>r. if sessionConflict s r then updateSessionRow s r else r)
                    (sessions t)) = map sn_id (sessions t)"
    by (induction "sessions t") (simp_all add: updateSessionRow_def)
  ultimately show ?thesis using Some by (simp add: sessionsUpsertRows_def)
qed

lemma convertToMessage_key:
  "rm_sessionId (convertToMessage m sid createdAt i cwd) = sid"
  "rm_sequence (convertToMessage m sid createdAt i cwd) = i"
  by (cases m; simp add: baseCard_def)+

lemma noFaults_simps [simp]:
  "noFaults (d\<lparr>current := t\<rparr>) = noFaults d"
  "noFaults (d\<lparr>committed := t\<rparr>) = noFaults d"
  "noFaults (d\<lparr>executed := n\<rparr>) = noFaults d"
  "noFaults (d\<lparr>inTransaction := b\<rparr>) = noFaults d"
  by (simp_all add: noFaults_def)

lemma noFaults_failAt: "noFaults d \<Longrightarrow> \<not> failAt d n"
  by (simp add: noFaults_def)

lemma upsertMessages_ok:
  assumes "noFaults d" and "inTransaction d" and "sid \<in> set (map sn_id (sessions (current d)))"
  shows "\<exists>d'. upsertMessages json sid createdAt cwd i msgs acc lastSeq d
            = (Inr (acc @ renderableMessagesFrom sid createdAt cwd i msgs,
                    if msgs = [] then lastSeq else int (i + length msgs) - 1), d')
          \<and> current d' = upsertAll (stringifyContent json)
                            (renderableMessagesFrom sid createdAt cwd i msgs) (current d)
          \<and> inTransaction d' \<and> noFaults d'"
  using assms
proof (induction msgs arbitrary: i acc lastSeq d)
  case Nil
  then show ?case by simp
next
  case (Cons m ms)
  let ?card = "convertToMessage m sid createdAt i cwd"
  let ?f = "messagesUpsertRows (stringifyContent json) ?card"
  let ?d1 = "d\<lparr>current := snd (?f (current d)),
                 committed := (if inTransaction d then committed d else snd (?f (current d))),
                 executed := Suc (executed d)\<rparr>"
  have e: "execConstrained (messagesUpsert (stringifyContent json) ?card) d
             = (Inr (fst (?f (current d))), ?d1)"
    using Cons.prems
    by (intro execConstrained_ok messagesUpsert_ok) (simp_all add: noFaults_failAt convertToMessage_key)
  have d1: "noFaults ?d1" "inTransaction ?d1" "sid \<in> set (map sn_id (sessions (current ?d1)))"
    using Cons.prems by simp_all
  show ?case
  proof (cases "(i + 1) mod MSG_BATCH_SIZE = 0")
    case False
    from Cons.IH [OF d1, of "Suc i" "acc @ [?card]" "int i"]
    obtain d' where
      "upsertMessages json sid createdAt cwd (Suc i) ms (acc @ [?card]) (int i) ?d1
         = (Inr ((acc @ [?card]) @ renderableMessagesFrom sid createdAt cwd (Suc i) ms,
                 if ms = [] then int i else int (Suc i + length ms) - 1), d')"
      "current d' = upsertAll (stringifyContent json)
                            (renderableMessagesFrom sid createdAt cwd (Suc i) ms) (current ?d1)"
      "inTransaction d'" "noFaults d'"
      by blast
    then show ?thesis
      using False e by (auto simp: Let_def)
  next
    case True
    let ?d2 = "?d1\<lparr>committed := current ?d1, inTransaction := False, executed := Suc (executed ?d1)\<rparr>"
    let ?d3 = "?d2\<lparr>inTransaction := True, executed := Suc (executed ?d2)\<rparr>"
    have c: "commitTransaction ?d1 = (Inr (), ?d2)"
      using Cons.prems by (simp add: commitTransaction_def noFaults_failAt)
    have b: "beginTransaction ?d2 = (Inr (), ?d3)"
      using Cons.prems by (simp add: beginTransaction_def noFaults_failAt)
    have d3: "noFaults ?d3" "inTransaction ?d3" "sid \<in> set (map sn_id (sessions (current ?d3)))"
      using Cons.prems by simp_all
    from Cons.IH [OF d3, of "Suc i" "acc @ [?card]" "int i"]
    obtain d' where
      "upsertMessages json sid createdAt cwd (Suc i) ms (acc @ [?card]) (int i) ?d3
         = (Inr ((acc @ [?card]) @ renderableMessagesFrom sid createdAt cwd (Suc i) ms,
                 if ms = [] then int i else int (Suc i + length ms) - 1), d')"
      "current d' = upsertAll (stringifyContent json)
                            (renderableMessagesFrom sid createdAt cwd (Suc i) ms) (current ?d3)"
      "inTransaction d'" "noFaults d'"
      by blast
    then show ?thesis
      using True e c b by (auto simp: Let_def)
  qed
qed

lemma length_renderableMessagesFrom:
  "length (renderableMessagesFrom sid createdAt cwd i msgs) = length msgs"
  by (induction msgs arbitrary: i) simp_all

lemma primaryWrites_ok:
  assumes "noFaults d" and "inTransaction d"
    and "projectId \<in> set (map pr_id (projects (current d)))"
  shows "\<exists>d'. primaryWrites json swp projectId d
            = (Inr (sessionCards json swp projectId (current d)), d')
          \<and> current d' = primaryTables json swp projectId (current d)
          \<and> committed d' = current d'
          \<and> \<not> inTransaction d' \<and> noFaults d'"
proof -
  let ?sel = "sessionsGetByProjectAndSessionId projectId (sd_sessionId (swp_session swp))"
  let ?ups = "sessionsUpsertRows (sessionData json swp projectId)"
  let ?t = "current d"
  let ?sid = "sessionRowId json swp projectId ?t"
  let ?cards = "sessionCards json swp projectId ?t"
  let ?d1 = "d\<lparr>executed := Suc (executed d)\<rparr>"
  let ?d2 = "?d1\<lparr>current := snd (?ups ?t), executed := Suc (executed ?d1)\<rparr>"
  have e1: "exec ?sel d = (Inr (fst (?sel ?t)), ?d1)"
    using assms by (simp add: exec_ok noFaults_failAt sessionsGetByProjectAndSessionId_def)
  have "s_projectId (sessionData json swp projectId) = projectId"
    by (simp add: sessionData_def Let_def)
  with assms(3)
  have "sessionsUpsert (sessionData json swp projectId) ?t = (Inr ?sid, snd (?ups ?t))"
    by (simp add: sessionsUpsert_ok sessionRowId_def)
  then have e2: "execConstrained (sessionsUpsert (sessionData json swp projectId)) ?d1
                   = (Inr ?sid, ?d2)"
    using assms by (simp add: execConstrained_ok noFaults_failAt)
  have d2: "noFaults ?d2" "inTransaction ?d2" "?sid \<in> set (map sn_id (sessions (current ?d2)))"
    using assms sessionsUpsertRows_id [of "sessionData json swp projectId" ?t]
    by (simp_all add: sessionRowId_def)
  from upsertMessages_ok [OF d2, of json "swp_created swp" "sessionCwd swp" 0
      "sd_messages (swp_session swp)" "[]" "- 1"]
  obtain d3 where
    l: "upsertMessages json ?sid (swp_created swp) (sessionCwd swp) 0
          (sd_messages (swp_session swp)) [] (- 1) ?d2
        = (Inr (?cards, if sd_messages (swp_session swp) = [] then - 1
                        else int (length (sd_messages (swp_session swp))) - 1), d3)"
    and c3: "current d3 = upsertAll (stringifyContent json) ?cards (snd (?ups ?t))"
    and d3: "inTransaction d3" "noFaults d3"
    by (auto simp: sessionCards_def)
  have len: "length ?cards = length (sd_messages (swp_session swp))"
    by (simp add: sessionCards_def length_renderableMessagesFrom)
  show ?thesis
  proof (cases "sd_messages (swp_session swp) = []")
    case True
    then have cards: "?cards = []" using len by simp
    let ?d4 = "d3\<lparr>committed := current d3, inTransaction := False, executed := Suc (executed d3)\<rparr>"
    have c: "commitTransaction d3 = (Inr (), ?d4)"
      using d3 by (simp add: commitTransaction_def noFaults_failAt)
    have "primaryWrites json swp projectId d = (Inr ?cards, ?d4)"
      using e1 e2 l c True
      by (simp add: primaryWrites_def andThen_def succeed_def Let_def sessionCwd_def)
    moreover have "current ?d4 = primaryTables json swp projectId ?t"
      using c3 cards by (simp add: primaryTables_def Let_def)
    ultimately show ?thesis using d3 by auto
  next
    case False
    then have cards: "?cards \<noteq> []" using len by auto
    let ?del = "deleteBySessionIdAndMinSequence ?sid (int (length (sd_messages (swp_session swp))) - 1)"
    let ?d4 = "d3\<lparr>current := snd (?del (current d3)), executed := Suc (executed d3)\<rparr>"
    let ?d5 = "?d4\<lparr>committed := current ?d4, inTransaction := False, executed := Suc (executed ?d4)\<rparr>"
    have e4: "exec ?del d3 = (Inr (), ?d4)"
      using d3 by (simp add: exec_ok noFaults_failAt)
    have c: "commitTransaction ?d4 = (Inr (), ?d5)"
      using d3 by (simp add: commitTransaction_def noFaults_failAt)
    have "primaryWrites json swp projectId d = (Inr ?cards, ?d5)"
      using e1 e2 l e4 c False
      by (simp add: primaryWrites_def andThen_def succeed_def Let_def sessionCwd_def)
    moreover have "current ?d5 = primaryTables json swp projectId ?t"
      using c3 cards len by (simp add: primaryTables_def Let_def)
    ultimately show ?thesis using d3 by auto
  qed
qed


lemma rollbackTransaction_closed: "\<not> inTransaction (snd (rollbackTransaction s))"
  by (simp add: rollbackTransaction_def)

lemma commitTransaction_Inr:
  "commitTransaction s = (Inr u, s') \<Longrightarrow> \<not> inTransaction s' \<and> committed s' = current s'"
  by (auto simp: commitTransaction_def split: if_splits)


lemma searchWrites_Inr:
  assumes "searchWrites swp projectUuid cards s = (Inr u, s')"
  shows "\<not> inTransaction s' \<and> committed s' = current s'"
proof -
  from assms obtain s3 where "commitTransaction s3 = (Inr u, s')"
    by (auto simp: searchWrites_def andThen_def split: prod.splits sum.splits)
  then show ?thesis by (rule commitTransaction_Inr)
qed

text \<open>A connection keeps nothing uncommitted outside a transaction.\<close>

lemma exec_settled:
  "\<lbrakk> \<not> inTransaction d \<longrightarrow> current d = committed d; exec f d = (r, d') \<rbrakk>
   \<Longrightarrow> \<not> inTransaction d' \<longrightarrow> current d' = committed d'"
  by (auto simp: exec_def split: if_splits prod.splits)

lemma beginTransaction_settled:
  "\<lbrakk> \<not> inTransaction d \<longrightarrow> current d = committed d; beginTransaction d = (r, d') \<rbrakk>
   \<Longrightarrow> \<not> inTransaction d' \<longrightarrow> current d' = committed d'"
  by (auto simp: beginTransaction_def split: if_splits)

lemma commitTransaction_settled:
  "\<lbrakk> \<not> inTransaction d \<longrightarrow> current d = committed d; commitTransaction d = (r, d') \<rbrakk>
   \<Longrightarrow> \<not> inTransaction d' \<longrightarrow> current d' = committed d'"
  by (auto simp: commitTransaction_def split: if_splits)

lemma insertSearchEntries_settled:
  "\<lbrakk> \<not> inTransaction s \<longrightarrow> current s = committed s;
     insertSearchEntries swp projectUuid i cards s = (r, s') \<rbrakk>
   \<Longrightarrow> \<not> inTransaction s' \<longrightarrow> current s' = committed s'"
proof (induction cards arbitrary: i s)
  case Nil
  then show ?case by simp
next
  case (Cons c cs)
  let ?ins = "if extractText (rm_content c) \<noteq> []
      then exec (searchInsert
             \<lparr> se_content = extractText (rm_content c),
               se_sessionId = sd_sessionId (swp_session swp),
               se_projectId = projectUuid,
               se_cardType = rm_cardType c,
               se_sessionTitle = sessionTitle swp,
               se_projectName = swp_projectName swp,
               se_timestamp = rm_timestamp c \<rparr>) s
      else (Inr (), s)"
  obtain r1 s1 where i1: "?ins = (r1, s1)" by (cases ?ins)
  have st1: "\<not> inTransaction s1 \<longrightarrow> current s1 = committed s1"
    using i1 Cons.prems(1) exec_settled by (auto split: if_splits)
  show ?case
  proof (cases r1)
    case (Inl e)
    then show ?thesis using Cons.prems(2) i1 st1 by (simp add: Let_def)
  next
    case (Inr u)
    show ?thesis
    proof (cases "(i + 1) mod SEARCH_BATCH_SIZE = 0")
      case False
      then have "insertSearchEntries swp projectUuid (Suc i) cs s1 = (r, s')"
        using Cons.prems(2) i1 Inr by (simp add: Let_def)
      then show ?thesis using Cons.IH st1 by blast
    next
      case True
      obtain r2 s2 where c: "commitTransaction s1 = (r2, s2)" by (cases "commitTransaction s1")
      have st2: "\<not> inTransaction s2 \<longrightarrow> current s2 = committed s2"
        using commitTransaction_settled [OF st1 c] .
      obtain r3 s3 where b: "beginTransaction s2 = (r3, s3)" by (cases "beginTransaction s2")
      have st3: "\<not> inTransaction s3 \<longrightarrow> current s3 = committed s3"
        using beginTransaction_settled [OF st2 b] .
      show ?thesis
      proof (cases r2)
        case (Inl e)
        then show ?thesis using Cons.prems(2) i1 Inr True c st2 by (simp add: Let_def)
      next
        case r2: (Inr v)
        show ?thesis
        proof (cases r3)
          case (Inl e)
          then show ?thesis using Cons.prems(2) i1 Inr True c r2 b st3 by (simp add: Let_def)
        next
          case r3: (Inr w)
          then have "insertSearchEntries swp projectUuid (Suc i) cs s3 = (r, s')"
            using Cons.prems(2) i1 Inr True c r2 b by (simp add: Let_def)
          then show ?thesis using Cons.IH st3 by blast
        qed
      qed
    qed
  qed
qed

lemma searchWrites_settled:
  assumes "\<not> inTransaction s \<longrightarrow> current s = committed s"
    and "searchWrites swp projectUuid cards s = (r, s')"
  shows "\<not> inTransaction s' \<longrightarrow> current s' = committed s'"
proof -
  let ?del = "exec (searchDeleteBySessionId (sd_sessionId (swp_session swp)))"
  obtain r1 s1 where e1: "?del s = (r1, s1)" by (cases "?del s")
  have st1: "\<not> inTransaction s1 \<longrightarrow> current s1 = committed s1"
    using exec_settled [OF assms(1) e1] .
  obtain r2 s2 where e2: "beginTransaction s1 = (r2, s2)" by (cases "beginTransaction s1")
  have st2: "\<not> inTransaction s2 \<longrightarrow> current s2 = committed s2"
    using beginTransaction_settled [OF st1 e2] .
  obtain r3 s3 where e3: "insertSearchEntries swp projectUuid 0 cards s2 = (r3, s3)"
    by (cases "insertSearchEntries swp projectUuid 0 cards s2")
  have st3: "\<not> inTransaction s3 \<longrightarrow> current s3 = committed s3"
    using insertSearchEntries_settled [OF st2 e3] .
  obtain r4 s4 where e4: "commitTransaction s3 = (r4, s4)" by (cases "commitTransaction s3")
  have st4: "\<not> inTransaction s4 \<longrightarrow> current s4 = committed s4"
    using commitTransaction_settled [OF st3 e4] .
  from assms(2) e1 e2 e3 e4 st1 st2 st3 st4 show ?thesis
    by (auto simp: searchWrites_def andThen_def split: sum.splits)
qed

lemma rollbackTransaction_idle:
  "\<not> inTransaction s \<longrightarrow> current s = committed s \<Longrightarrow> idle (snd (rollbackTransaction s))"
  by (simp add: rollbackTransaction_def idle_def)

text \<open>
  Whatever happens in the search phase, \<^verbatim>\<open>importSession\<close> returns normally once the
  primary writes are committed, and the search connection is left without an open
  transaction, and at rest if it was at rest before.
\<close>

lemma importSession_after_primary:
  assumes b: "beginTransaction (db st) = (Inr u, d1)"
    and p: "primaryWrites json swp projectId d1 = (Inr cards, d2)"
  shows "\<exists>s'. importSession json swp projectId projectUuid st
              = (Inr (), st\<lparr>db := d2, searchDb := s'\<rparr>)
          \<and> \<not> inTransaction s'
          \<and> (idle (searchDb st) \<longrightarrow> idle s')"
proof (cases "searchWrites swp projectUuid cards (searchDb st)")
  case (Pair r s1)
  have settled: "idle (searchDb st) \<longrightarrow> (\<not> inTransaction s1 \<longrightarrow> current s1 = committed s1)"
    using searchWrites_settled [OF _ Pair] by (simp add: idle_def)
  show ?thesis
  proof (cases r)
    case (Inl e)
    then have "importSession json swp projectId projectUuid st
                = (Inr (), st\<lparr>db := d2, searchDb := snd (rollbackTransaction s1)\<rparr>)"
      using b p Pair by (simp add: importSession_def)
    then show ?thesis
      using rollbackTransaction_closed [of s1] rollbackTransaction_idle [of s1] settled
      by blast
  next
    case (Inr v)
    then have "importSession json swp projectId projectUuid st
                = (Inr (), st\<lparr>db := d2, searchDb := s1\<rparr>)"
      using b p Pair by (simp add: importSession_def)
    moreover have "\<not> inTransaction s1 \<and> committed s1 = current s1"
      using searchWrites_Inr Pair Inr by blast
    ultimately show ?thesis by (auto simp: idle_def)
  qed
qed

lemma importSession_ok:
  assumes "noFaults (db st)" and "idle (db st)"
    and "projectId \<in> set (map pr_id (projects (current (db st))))"
  shows "\<exists>st'. importSession json swp projectId projectUuid st = (Inr (), st')
           \<and> current (db st') = primaryTables json swp projectId (current (db st))
           \<and> idle (db st') \<and> noFaults (db st')
           \<and> \<not> inTransaction (searchDb st')"
proof -
  let ?d1 = "(db st)\<lparr>inTransaction := True, executed := Suc (executed (db st))\<rparr>"
  have b: "beginTransaction (db st) = (Inr (), ?d1)"
    using assms by (simp add: beginTransaction_def noFaults_failAt idle_def)
  have d1: "noFaults ?d1" "inTransaction ?d1"
    "projectId \<in> set (map pr_id (projects (current ?d1)))"
    using assms by simp_all
  from primaryWrites_ok [OF d1, of json swp]
  obtain d2 where p: "primaryWrites json swp projectId ?d1
        = (Inr (sessionCards json swp projectId (current ?d1)), d2)"
    and d2: "current d2 = primaryTables json swp projectId (current ?d1)"
      "committed d2 = current d2" "\<not> inTransaction d2" "noFaults d2"
    by blast
  from importSession_after_primary [OF b p, of projectUuid]
  obtain s' where "importSession json swp projectId projectUuid st
              = (Inr (), st\<lparr>db := d2, searchDb := s'\<rparr>)" "\<not> inTransaction s'"
    by blast
  then show ?thesis using d2 by (auto simp: idle_def)
qed

subsection \<open>Upserts on the tables\<close>

lemma updateSessionRow_idem:
  "updateSessionRow s (updateSessionRow s r) = updateSessionRow s r"
  by (simp add: updateSessionRow_def)

lemma updateSessionRow_inserted:
  "updateSessionRow s (insertedSessionRow n s) = insertedSessionRow n s"
  by (simp add: updateSessionRow_def insertedSessionRow_def)

lemma sessionConflict_update:
  "sessionConflict s (updateSessionRow s' r) = sessionConflict s r"
  by (simp add: sessionConflict_def updateSessionRow_def)

lemma sessionConflict_inserted: "sessionConflict s (insertedSessionRow n s)"
  by (simp add: sessionConflict_def insertedSessionRow_def)

lemma sn_id_update: "sn_id (updateSessionRow s r) = sn_id r"
  by (simp add: updateSessionRow_def)

lemma find_map_update:
  assumes "\<And>r. P (f r) = P r"
  shows "find P (map (\<lambda>r. if P r then f r else r) rows) = map_option f (find P rows)"
  using assms by (induction rows) auto

lemma find_append_None:
  "find P rows = None \<Longrightarrow> P x \<Longrightarrow> find P (rows @ [x]) = Some x"
  by (induction rows) (auto split: if_splits)

lemma find_None_map_id:
  "find P rows = None \<Longrightarrow> map (\<lambda>r. if P r then f r else r) rows = rows"
  by (induction rows) (auto split: if_splits)

text \<open>
  A second upsert of the same session returns the same id and leaves the rows as they
  are; it advances the sequence.
\<close>

lemma sessionsUpsertRows_again:
  assumes "sessions u = sessions (snd (sessionsUpsertRows s t))"
  shows "fst (sessionsUpsertRows s u) = fst (sessionsUpsertRows s t)
       \<and> sessions (snd (sessionsUpsertRows s u)) = sessions u"
proof (cases "find (sessionConflict s) (sessions t)")
  case None
  let ?n = "nextId (sessionsSeq t) (map sn_id (sessions t))"
  have su: "sessions u = sessions t @ [insertedSessionRow ?n s]"
    using assms None by (simp add: sessionsUpsertRows_def Let_def)
  have f: "find (sessionConflict s) (sessions u) = Some (insertedSessionRow ?n s)"
    unfolding su by (rule find_append_None [OF None sessionConflict_inserted])
  have m: "map (\<lambda>r. if sessionConflict s r then updateSessionRow s r else r) (sessions u)
            = sessions u"
    unfolding su using find_None_map_id [OF None]
    by (simp add: sessionConflict_inserted updateSessionRow_inserted)
  have "sessionsUpsertRows s u
          = (sn_id (insertedSessionRow ?n s),
             u\<lparr>sessions := sessions u,
               sessionsSeq := nextId (sessionsSeq u) (map sn_id (sessions u))\<rparr>)"
    using f m by (simp add: sessionsUpsertRows_def)
  then show ?thesis
    using None by (simp add: sessionsUpsertRows_def Let_def insertedSessionRow_def)
next
  case (Some e)
  have su: "sessions u
      = map (\<lambda>r. if sessionConflict s r then updateSessionRow s r else r) (sessions t)"
    using assms Some by (simp add: sessionsUpsertRows_def)
  have f: "find (sessionConflict s) (sessions u) = Some (updateSessionRow s e)"
    unfolding su using find_map_update [of "sessionConflict s" "updateSessionRow s" "sessions t"]
      Some by (simp add: sessionConflict_update)
  have m: "map (\<lambda>r. if sessionConflict s r then updateSessionRow s r else r) (sessions u)
            = sessions u"
    unfolding su by (simp add: sessionConflict_update updateSessionRow_idem)
  have "sessionsUpsertRows s u
          = (sn_id (updateSessionRow s e),
             u\<lparr>sessions := sessions u,
               sessionsSeq := nextId (sessionsSeq u) (map sn_id (sessions u))\<rparr>)"
    using f m by (simp add: sessionsUpsertRows_def)
  then show ?thesis
    using Some by (simp add: sessionsUpsertRows_def sn_id_update)
qed

lemma upsertAll_sessions [simp]:
  "sessions (upsertAll f cards t) = sessions t"
  "sessionsSeq (upsertAll f cards t) = sessionsSeq t"
  "projects (upsertAll f cards t) = projects t"
  "projectsSeq (upsertAll f cards t) = projectsSeq t"
  by (induction cards arbitrary: t) simp_all

lemma delete_sessions [simp]:
  "sessions (snd (deleteBySessionIdAndMinSequence sid n t)) = sessions t"
  "sessionsSeq (snd (deleteBySessionIdAndMinSequence sid n t)) = sessionsSeq t"
  "projects (snd (deleteBySessionIdAndMinSequence sid n t)) = projects t"
  "projectsSeq (snd (deleteBySessionIdAndMinSequence sid n t)) = projectsSeq t"
  "messagesSeq (snd (deleteBySessionIdAndMinSequence sid n t)) = messagesSeq t"
  by (simp_all add: deleteBySessionIdAndMinSequence_def)

lemma primaryTables_sessions:
  "sessions (primaryTables json swp pid t)
     = sessions (snd (sessionsUpsertRows (sessionData json swp pid) t))"
  by (simp add: primaryTables_def Let_def)

text \<open>Message rows: the update writes every column but the id and the key.\<close>

lemma updateMessageRow_idem:
  "updateMessageRow f c (updateMessageRow f c r) = updateMessageRow f c r"
  by (simp add: updateMessageRow_def)

lemma updateMessageRow_inserted:
  "updateMessageRow f c (insertedMessageRow f n c) = insertedMessageRow f n c"
  by (simp add: updateMessageRow_def insertedMessageRow_def)

lemma messageConflict_update:
  "messageConflict c (updateMessageRow f c' r) = messageConflict c r"
  by (simp add: messageConflict_def updateMessageRow_def)

lemma messageConflict_inserted: "messageConflict c (insertedMessageRow f n c)"
  by (simp add: messageConflict_def insertedMessageRow_def)

lemma messageKey_update: "messageKey (updateMessageRow f c r) = messageKey r"
  by (simp add: messageKey_def updateMessageRow_def)

lemma mr_id_update: "mr_id (updateMessageRow f c r) = mr_id r"
  by (simp add: updateMessageRow_def)

lemma messageConflict_key:
  "messageConflict c r \<longleftrightarrow> messageKey r = (rm_sessionId c, rm_sequence c)"
  by (auto simp: messageConflict_def messageKey_def)

text \<open>
  A table is settled for a card when a row with the card's key exists and every such
  row already holds the card's columns. On a table settled for all cards, upserting
  them changes nothing.
\<close>

lemma messagesUpsertRows_settled:
  assumes ex: "\<exists>r \<in> set (messages t). messageConflict c r"
    and all: "\<forall>r \<in> set (messages t). messageConflict c r \<longrightarrow> updateMessageRow f c r = r"
  shows "messages (snd (messagesUpsertRows f c t)) = messages t"
proof -
  from ex obtain e where e: "find (messageConflict c) (messages t) = Some e"
    by (cases "find (messageConflict c) (messages t)") (auto simp: find_None_iff)
  have "map (\<lambda>r. if messageConflict c r then updateMessageRow f c r else r) (messages t)
          = messages t"
    using all by (simp add: map_idI)
  then show ?thesis using e by (simp add: messagesUpsertRows_def)
qed

lemma upsertAll_settled:
  assumes "\<forall>c \<in> set cards. (\<exists>r \<in> set (messages t). messageConflict c r)
              \<and> (\<forall>r \<in> set (messages t). messageConflict c r \<longrightarrow> updateMessageRow f c r = r)"
  shows "messages (upsertAll f cards t) = messages t"
  using assms
proof (induction cards arbitrary: t)
  case Nil
  then show ?case by simp
next
  case (Cons c cs)
  let ?t1 = "snd (messagesUpsertRows f c t)"
  from Cons.prems have m: "messages ?t1 = messages t"
    by (intro messagesUpsertRows_settled) auto
  from Cons.prems have "\<forall>c \<in> set cs. (\<exists>r \<in> set (messages ?t1). messageConflict c r)
              \<and> (\<forall>r \<in> set (messages ?t1). messageConflict c r \<longrightarrow> updateMessageRow f c r = r)"
    unfolding m by simp
  from Cons.IH [OF this] m show ?case by simp
qed

lemma messageConflict_cardKey: "messageConflict c r \<longleftrightarrow> messageKey r = cardKey c"
  by (auto simp: messageConflict_def messageKey_def cardKey_def)

lemma messagesUpsertRows_update:
  "find (messageConflict c) (messages t) = Some e \<Longrightarrow>
   messages (snd (messagesUpsertRows f c t))
     = map (\<lambda>r. if messageConflict c r then updateMessageRow f c r else r) (messages t)"
  by (simp add: messagesUpsertRows_def)

lemma messagesUpsertRows_insert:
  "find (messageConflict c) (messages t) = None \<Longrightarrow>
   messages (snd (messagesUpsertRows f c t))
     = messages t @ [insertedMessageRow f (nextId (messagesSeq t) (map mr_id (messages t))) c]"
  by (simp add: messagesUpsertRows_def Let_def)

lemma messageKey_inserted: "messageKey (insertedMessageRow f n c) = cardKey c"
  by (simp add: messageKey_def insertedMessageRow_def cardKey_def)

lemma messagesUpsertRows_keys:
  "set (map messageKey (messages (snd (messagesUpsertRows f c t))))
     = insert (cardKey c) (set (map messageKey (messages t)))"
proof (cases "find (messageConflict c) (messages t)")
  case None
  then show ?thesis by (simp add: messagesUpsertRows_insert messageKey_inserted)
next
  case (Some e)
  then have "e \<in> set (messages t)" "messageConflict c e"
    by (auto simp: find_Some_iff)
  then have "cardKey c \<in> set (map messageKey (messages t))"
    by (auto simp: messageConflict_cardKey image_iff intro!: bexI [where x = e])
  moreover have "map messageKey
      (map (\<lambda>r. if messageConflict c r then updateMessageRow f c r else r) (messages t))
      = map messageKey (messages t)"
    by (simp add: messageKey_update cong: if_cong)
  ultimately show ?thesis
    using Some by (auto simp only: messagesUpsertRows_update)
qed

lemma messagesUpsertRows_distinct:
  assumes "distinct (map messageKey (messages t))"
  shows "distinct (map messageKey (messages (snd (messagesUpsertRows f c t))))"
proof (cases "find (messageConflict c) (messages t)")
  case None
  then have "cardKey c \<notin> set (map messageKey (messages t))"
    by (auto simp: find_None_iff messageConflict_cardKey)
  then show ?thesis using assms None by (simp add: messagesUpsertRows_insert messageKey_inserted)
next
  case (Some e)
  have "map messageKey
      (map (\<lambda>r. if messageConflict c r then updateMessageRow f c r else r) (messages t))
      = map messageKey (messages t)"
    by (simp add: messageKey_update cong: if_cong)
  then show ?thesis using assms Some by (simp only: messagesUpsertRows_update)
qed

lemma upsertAll_distinct:
  "distinct (map messageKey (messages t)) \<Longrightarrow>
   distinct (map messageKey (messages (upsertAll f cards t)))"
  by (induction cards arbitrary: t) (simp_all add: messagesUpsertRows_distinct)

lemma applyCards_Cons_conflict:
  "messageConflict c r \<Longrightarrow> applyCards f (c # cs) r = updateMessageRow f c r"
  by (simp add: applyCards_def)

lemma applyCards_Cons_other:
  "\<not> messageConflict c r \<Longrightarrow> applyCards f (c # cs) r = applyCards f cs r"
  by (simp add: applyCards_def)

lemma applyCards_none:
  "\<forall>c \<in> set cs. \<not> messageConflict c r \<Longrightarrow> applyCards f cs r = r"
  by (induction cs) (simp_all add: applyCards_def)

lemma upsertAll_shape:
  assumes "distinct (map cardKey cards)"
  shows "messages (upsertAll f cards t)
           = map (applyCards f cards) (messages t) @ insertedRows f cards t"
  using assms
proof (induction cards arbitrary: t)
  case Nil
  then show ?case by (simp add: applyCards_def)
next
  case (Cons c cs)
  let ?t1 = "snd (messagesUpsertRows f c t)"
  from Cons.prems have dcs: "distinct (map cardKey cs)"
    and fresh: "\<forall>c' \<in> set cs. cardKey c' \<noteq> cardKey c"
    by (auto simp: image_iff)
  have later: "\<And>r. messageKey r = cardKey c \<Longrightarrow> applyCards f cs r = r"
    using fresh by (intro applyCards_none) (auto simp: messageConflict_cardKey)
  have IH: "messages (upsertAll f cs ?t1)
              = map (applyCards f cs) (messages ?t1) @ insertedRows f cs ?t1"
    by (rule Cons.IH [OF dcs])
  show ?case
  proof (cases "find (messageConflict c) (messages t)")
    case None
    then have noc: "\<forall>r \<in> set (messages t). \<not> messageConflict c r"
      by (auto simp: find_None_iff)
    have "map (applyCards f (c # cs)) (messages t) = map (applyCards f cs) (messages t)"
      using noc by (auto simp: applyCards_Cons_other)
    then show ?thesis
      using None IH
      by (simp add: messagesUpsertRows_insert later messageKey_inserted)
  next
    case (Some e)
    have step: "applyCards f cs (if messageConflict c r then updateMessageRow f c r else r)
                  = applyCards f (c # cs) r" for r
    proof (cases "messageConflict c r")
      case True
      then have "messageKey (updateMessageRow f c r) = cardKey c"
        by (simp add: messageKey_update messageConflict_cardKey)
      then show ?thesis using True by (simp add: later applyCards_Cons_conflict)
    next
      case False
      then show ?thesis by (simp add: applyCards_Cons_other)
    qed
    have "map (applyCards f cs)
            (map (\<lambda>r. if messageConflict c r then updateMessageRow f c r else r) (messages t))
          = map (applyCards f (c # cs)) (messages t)"
      by (simp add: step o_def)
    then show ?thesis
      using Some IH by (simp add: messagesUpsertRows_update)
  qed
qed

lemma insertedRows_origin:
  "n \<in> set (insertedRows f cards t) \<Longrightarrow>
   \<exists>c \<in> set cards. \<exists>newId. n = insertedMessageRow f newId c
      \<and> (\<forall>r \<in> set (messages t). \<not> messageConflict c r)"
proof (induction cards arbitrary: t)
  case Nil
  then show ?case by simp
next
  case (Cons c cs)
  let ?t1 = "snd (messagesUpsertRows f c t)"
  have keys: "set (map messageKey (messages t)) \<subseteq> set (map messageKey (messages ?t1))"
    by (auto simp only: messagesUpsertRows_keys)
  have older: "\<And>c'. \<forall>r \<in> set (messages ?t1). \<not> messageConflict c' r \<Longrightarrow>
                  \<forall>r \<in> set (messages t). \<not> messageConflict c' r"
  proof
    fix c' r
    assume none: "\<forall>r \<in> set (messages ?t1). \<not> messageConflict c' r" and r: "r \<in> set (messages t)"
    show "\<not> messageConflict c' r"
    proof
      assume "messageConflict c' r"
      then have "cardKey c' \<in> set (map messageKey (messages t))"
        using r by (auto simp: messageConflict_cardKey image_iff intro!: bexI [where x = r])
      with keys have "cardKey c' \<in> set (map messageKey (messages ?t1))" by blast
      then obtain r' where "r' \<in> set (messages ?t1)" "messageKey r' = cardKey c'" by auto
      with none show False by (simp add: messageConflict_cardKey)
    qed
  qed
  show ?case
  proof (cases "find (messageConflict c) (messages t)")
    case None
    then have noc: "\<forall>r \<in> set (messages t). \<not> messageConflict c r"
      by (auto simp: find_None_iff)
    from Cons.prems None
    consider "n = insertedMessageRow f (nextId (messagesSeq t) (map mr_id (messages t))) c"
      | "n \<in> set (insertedRows f cs ?t1)"
      by auto
    then show ?thesis
    proof cases
      case 1
      then show ?thesis using noc by auto
    next
      case 2
      from Cons.IH [OF 2] older show ?thesis by (metis list.set_intros(2))
    qed
  next
    case (Some e)
    with Cons.prems have "n \<in> set (insertedRows f cs ?t1)" by simp
    from Cons.IH [OF this] older show ?thesis by (metis list.set_intros(2))
  qed
qed

lemma upsertAll_keys:
  "set (map messageKey (messages (upsertAll f cards t)))
     = set (map cardKey cards) \<union> set (map messageKey (messages t))"
proof (induction cards arbitrary: t)
  case Nil
  then show ?case by simp
next
  case (Cons c cs)
  have "set (map messageKey (messages (upsertAll f cs (snd (messagesUpsertRows f c t)))))
          = set (map cardKey cs) \<union> set (map messageKey (messages (snd (messagesUpsertRows f c t))))"
    by (rule Cons.IH)
  then show ?case by (simp only: upsertAll.simps messagesUpsertRows_keys) auto
qed

lemma messageKey_applyCards: "messageKey (applyCards f cards r) = messageKey r"
  by (simp add: applyCards_def messageKey_update split: option.splits)

lemma applyCards_conflict:
  assumes d: "distinct (map cardKey cards)" and c: "c \<in> set cards" and r: "messageConflict c r"
  shows "applyCards f cards r = updateMessageRow f c r"
proof -
  from c r obtain c' where f: "find (\<lambda>c. messageConflict c r) cards = Some c'"
    by (cases "find (\<lambda>c. messageConflict c r) cards") (auto simp: find_None_iff)
  then have "c' \<in> set cards" "messageConflict c' r"
    by (auto simp: find_Some_iff)
  then have "cardKey c' = cardKey c" using r by (simp add: messageConflict_cardKey)
  with d c \<open>c' \<in> set cards\<close> have "c' = c"
    by (meson distinct_map inj_onD)
  with f show ?thesis by (simp add: applyCards_def)
qed

text \<open>After the loop the table is settled for every card.\<close>

lemma upsertAll_settles:
  assumes d: "distinct (map cardKey cards)" and c: "c \<in> set cards"
  shows "(\<exists>r \<in> set (messages (upsertAll f cards t)). messageConflict c r)
       \<and> (\<forall>r \<in> set (messages (upsertAll f cards t)).
              messageConflict c r \<longrightarrow> updateMessageRow f c r = r)"
proof
  have "cardKey c \<in> set (map messageKey (messages (upsertAll f cards t)))"
    using c by (simp only: upsertAll_keys) auto
  then show "\<exists>r \<in> set (messages (upsertAll f cards t)). messageConflict c r"
    by (auto simp: messageConflict_cardKey)
next
  show "\<forall>r \<in> set (messages (upsertAll f cards t)).
          messageConflict c r \<longrightarrow> updateMessageRow f c r = r"
  proof (intro ballI impI)
    fix r' assume r': "r' \<in> set (messages (upsertAll f cards t))" and cf: "messageConflict c r'"
    from r' consider r where "r \<in> set (messages t)" "r' = applyCards f cards r"
      | "r' \<in> set (insertedRows f cards t)"
      by (auto simp: upsertAll_shape [OF d])
    then show "updateMessageRow f c r' = r'"
    proof cases
      case 1
      then have "messageConflict c r"
        using cf by (simp add: messageConflict_cardKey messageKey_applyCards)
      then have "r' = updateMessageRow f c r"
        using 1 applyCards_conflict [OF d c] by simp
      then show ?thesis by (simp add: updateMessageRow_idem)
    next
      case 2
      from insertedRows_origin [OF 2] obtain c' newId where
        c': "c' \<in> set cards" "r' = insertedMessageRow f newId c'"
        by blast
      then have "cardKey c' = cardKey c"
        using cf by (simp add: messageConflict_cardKey messageKey_inserted)
      with d c c'(1) have "c' = c" by (meson distinct_map inj_onD)
      then show ?thesis using c'(2) by (simp add: updateMessageRow_inserted)
    qed
  qed
qed

lemma cardKey_convertToMessage: "cardKey (convertToMessage m sid createdAt i cwd) = (sid, i)"
  by (simp add: cardKey_def convertToMessage_key)

lemma cardKeys_renderableMessagesFrom:
  "map cardKey (renderableMessagesFrom sid createdAt cwd i msgs)
     = map (Pair sid) [i ..< i + length msgs]"
proof (induction msgs arbitrary: i)
  case Nil
  then show ?case by simp
next
  case (Cons m ms)
  have "[i ..< i + length (m # ms)] = i # [Suc i ..< Suc i + length ms]"
    by (subst upt_rec) simp
  then show ?case using Cons.IH [of "Suc i"] by (simp add: cardKey_convertToMessage)
qed

lemma distinct_renderableMessagesFrom:
  "distinct (map cardKey (renderableMessagesFrom sid createdAt cwd i msgs))"
  by (simp add: cardKeys_renderableMessagesFrom distinct_map inj_on_def)

lemma card_of_session:
  assumes "c \<in> set (renderableMessagesFrom sid createdAt cwd 0 msgs)"
  shows "rm_sessionId c = sid \<and> rm_sequence c < length msgs"
proof -
  from assms have "cardKey c \<in> set (map cardKey (renderableMessagesFrom sid createdAt cwd 0 msgs))"
    by simp
  then show ?thesis
    by (simp only: cardKeys_renderableMessagesFrom) (auto simp: cardKey_def)
qed

subsection \<open>The tables after \<^verbatim>\<open>importSession\<close>\<close>

lemma length_sessionCards:
  "length (sessionCards json swp pid t) = length (sd_messages (swp_session swp))"
  by (simp add: sessionCards_def length_renderableMessagesFrom)

lemma sessionCards_key:
  assumes "c \<in> set (sessionCards json swp pid t)"
  shows "rm_sessionId c = sessionRowId json swp pid t
       \<and> rm_sequence c < length (sd_messages (swp_session swp))"
  using assms card_of_session unfolding sessionCards_def by blast

lemma distinct_sessionCards: "distinct (map cardKey (sessionCards json swp pid t))"
  by (simp add: sessionCards_def distinct_renderableMessagesFrom)

lemma primaryTables_messages:
  "messages (primaryTables json swp pid t)
     = (let sid = sessionRowId json swp pid t;
            cards = sessionCards json swp pid t;
            rows = messages (upsertAll (stringifyContent json) cards
                     (snd (sessionsUpsertRows (sessionData json swp pid) t)))
        in if cards = [] then rows
           else filter (\<lambda>r. \<not> (mr_session_id r = sid \<and> mr_sequence r \<ge> length cards)) rows)"
proof -
  have "(int (length cs) - 1 < int n) = (length cs \<le> n)" for cs :: "RenderableMessage list" and n
    by auto
  then show ?thesis
    by (simp add: primaryTables_def Let_def deleteBySessionIdAndMinSequence_def)
qed

text \<open>No row of the session lies beyond the last message, if there is a message.\<close>

lemma primaryTables_no_stale:
  assumes "sd_messages (swp_session swp) \<noteq> []"
    and "r \<in> set (sessionMessages (sessionRowId json swp pid t) (primaryTables json swp pid t))"
  shows "mr_sequence r < length (sd_messages (swp_session swp))"
proof -
  have "sessionCards json swp pid t \<noteq> []"
    using assms(1) length_sessionCards [of json swp pid t] by auto
  then show ?thesis
    using assms(2) length_sessionCards [of json swp pid t]
    by (auto simp: sessionMessages_def primaryTables_messages Let_def)
qed

text \<open>The table is settled for every card of the session.\<close>

lemma primaryTables_settled:
  assumes c: "c \<in> set (sessionCards json swp pid t)"
  shows "(\<exists>r \<in> set (messages (primaryTables json swp pid t)). messageConflict c r)
       \<and> (\<forall>r \<in> set (messages (primaryTables json swp pid t)).
              messageConflict c r \<longrightarrow> updateMessageRow (stringifyContent json) c r = r)"
proof -
  let ?cards = "sessionCards json swp pid t"
  let ?rows = "messages (upsertAll (stringifyContent json) ?cards
                 (snd (sessionsUpsertRows (sessionData json swp pid) t)))"
  from upsertAll_settles [OF distinct_sessionCards c]
  have ex: "\<exists>r \<in> set ?rows. messageConflict c r"
    and al: "\<forall>r \<in> set ?rows. messageConflict c r \<longrightarrow> updateMessageRow (stringifyContent json) c r = r"
    by blast+
  have kept: "\<And>r. messageConflict c r \<Longrightarrow>
      \<not> (mr_session_id r = sessionRowId json swp pid t \<and> mr_sequence r \<ge> length ?cards)"
    using sessionCards_key [OF c] length_sessionCards [of json swp pid t]
    by (auto simp: messageConflict_def)
  show ?thesis
    using ex al kept by (auto simp: primaryTables_messages Let_def)
qed

lemma sessionRowId_primaryTables:
  "sessionRowId json swp pid (primaryTables json swp pid t) = sessionRowId json swp pid t"
  using sessionsUpsertRows_again [OF primaryTables_sessions, of json swp pid t]
  by (simp add: sessionRowId_def)

lemma sessionCards_primaryTables:
  "sessionCards json swp pid (primaryTables json swp pid t) = sessionCards json swp pid t"
  by (simp add: sessionCards_def sessionRowId_primaryTables)

lemma primaryTables_projects [simp]:
  "projects (primaryTables json swp pid t) = projects t"
  by (simp add: primaryTables_def Let_def)

text \<open>
  Running the primary write again on its own result leaves every row as it is (the
  sequences advance).
\<close>

lemma primaryTables_idem:
  "rowsOf (primaryTables json swp pid (primaryTables json swp pid t))
     = rowsOf (primaryTables json swp pid t)"
proof -
  let ?T = "primaryTables json swp pid t"
  let ?cards = "sessionCards json swp pid t"
  let ?sid = "sessionRowId json swp pid t"
  let ?T1 = "snd (sessionsUpsertRows (sessionData json swp pid) ?T)"
  let ?U = "upsertAll (stringifyContent json) ?cards ?T1"
  have s: "sessions ?T1 = sessions ?T"
    using sessionsUpsertRows_again [OF primaryTables_sessions, of json swp pid t] by simp
  have m1: "messages ?T1 = messages ?T" by simp
  have u: "messages ?U = messages ?T"
    unfolding m1 [symmetric]
    by (rule upsertAll_settled) (use primaryTables_settled m1 in auto)
  have su: "sessions ?U = sessions ?T" using s by simp
  show ?thesis
  proof (cases "?cards = []")
    case True
    then show ?thesis
      using su u
      by (simp add: primaryTables_def [of json swp pid ?T] Let_def sessionCards_primaryTables
          rowsOf_def)
  next
    case False
    have "\<not> (mr_session_id r = ?sid \<and> int (length ?cards) - 1 < int (mr_sequence r))"
      if "r \<in> set (messages ?T)" for r
    proof -
      from that False have "\<not> (mr_session_id r = ?sid \<and> mr_sequence r \<ge> length ?cards)"
        by (simp add: primaryTables_messages Let_def)
      then show ?thesis by auto
    qed
    then have "filter (\<lambda>r. \<not> (mr_session_id r = ?sid \<and> int (length ?cards) - 1 < int (mr_sequence r)))
            (messages ?T) = messages ?T"
      by (simp only: filter_id_conv) blast
    then have "messages (snd (deleteBySessionIdAndMinSequence ?sid (int (length ?cards) - 1) ?U))
                 = messages ?T"
      using u by (simp add: deleteBySessionIdAndMinSequence_def)
    then show ?thesis
      using su False
      by (simp add: primaryTables_def [of json swp pid ?T] Let_def sessionCards_primaryTables
          sessionRowId_primaryTables rowsOf_def)
  qed
qed

lemma primaryTables_unique:
  assumes "uniqueMessageKeys t"
  shows "uniqueMessageKeys (primaryTables json swp pid t)"
proof -
  let ?rows = "messages (upsertAll (stringifyContent json)
          (sessionCards json swp pid t) (snd (sessionsUpsertRows (sessionData json swp pid) t)))"
  have d: "distinct (map messageKey ?rows)"
    using assms by (intro upsertAll_distinct) (simp add: uniqueMessageKeys_def)
  show ?thesis
  proof (cases "sessionCards json swp pid t = []")
    case True
    then show ?thesis using d by (simp only: uniqueMessageKeys_def primaryTables_messages Let_def) simp
  next
    case False
    then show ?thesis
      using d by (simp only: uniqueMessageKeys_def primaryTables_messages Let_def)
                 (simp add: distinct_map_filter)
  qed
qed

text \<open>Every message of the session has its row, with its content.\<close>

lemma primaryTables_rows:
  assumes "i < length (sd_messages (swp_session swp))"
  shows "\<exists>r \<in> set (sessionMessages (sessionRowId json swp pid t) (primaryTables json swp pid t)).
           mr_sequence r = i
         \<and> mr_content_json r
             = stringifyContent json (rm_content (sessionCards json swp pid t ! i))"
proof -
  let ?cards = "sessionCards json swp pid t"
  let ?c = "?cards ! i"
  have c: "?c \<in> set ?cards" using assms by (simp add: length_sessionCards)
  have "map cardKey ?cards ! i = (sessionRowId json swp pid t, i)"
    using assms
    by (simp add: sessionCards_def cardKeys_renderableMessagesFrom length_renderableMessagesFrom)
  then have key: "cardKey ?c = (sessionRowId json swp pid t, i)"
    using assms by (simp add: length_sessionCards)
  from primaryTables_settled [OF c] obtain r where
    r: "r \<in> set (messages (primaryTables json swp pid t))" "messageConflict ?c r"
      "updateMessageRow (stringifyContent json) ?c r = r"
    by blast
  have "mr_content_json (updateMessageRow (stringifyContent json) ?c r)
          = stringifyContent json (rm_content ?c)"
    by (simp add: updateMessageRow_def)
  then have "mr_content_json r = stringifyContent json (rm_content ?c)"
    by (simp only: r(3))
  moreover from r(2) key have "mr_session_id r = sessionRowId json swp pid t" "mr_sequence r = i"
    by (auto simp: messageConflict_cardKey messageKey_def)
  ultimately show ?thesis using r(1) by (auto simp: sessionMessages_def)
qed

subsection \<open>Idempotent import\<close>



text \<open>
  For every session and every store at rest whose primary connection fails at no
  statement and holds the project, importing the session twice in succession succeeds
  both times and leaves every row of the primary tables as the first import left it; the
  session's rows are one row per message, carrying the message's sequence and content,
  with no duplicate (session, sequence) keys if the store had none; and when the session
  has at least one message, no row of the session has a sequence beyond the last
  message.
\<close>

lemma importSession_twice:
  assumes "noFaults (db st)" and "idle (db st)"
    and "pid \<in> set (map pr_id (projects (committed (db st))))"
  shows "\<exists>st1 st2.
           importSession json swp pid uuid st = (Inr (), st1)
         \<and> importSession json swp pid uuid st1 = (Inr (), st2)
         \<and> rowsOf (committed (db st2)) = rowsOf (committed (db st1))
         \<and> (uniqueMessageKeys (committed (db st)) \<longrightarrow> uniqueMessageKeys (committed (db st1)))
         \<and> (\<forall>i < length (sd_messages (swp_session swp)).
               \<exists>r \<in> set (sessionMessages (sessionRowId json swp pid (committed (db st)))
                           (committed (db st1))).
                  mr_sequence r = i
                \<and> mr_content_json r
                    = stringifyContent json
                        (rm_content (sessionCards json swp pid (committed (db st)) ! i)))
         \<and> (sd_messages (swp_session swp) \<noteq> [] \<longrightarrow>
               (\<forall>r \<in> set (sessionMessages (sessionRowId json swp pid (committed (db st)))
                           (committed (db st1))).
                  mr_sequence r < length (sd_messages (swp_session swp))))"
proof -
  let ?t = "committed (db st)"
  from assms have cur: "current (db st) = ?t" by (simp add: idle_def)
  from assms(3) have p0: "pid \<in> set (map pr_id (projects (current (db st))))"
    by (simp only: cur)
  from importSession_ok [OF assms(1,2) p0, of json swp uuid]
  obtain st1 where i1: "importSession json swp pid uuid st = (Inr (), st1)"
    and c1: "current (db st1) = primaryTables json swp pid ?t"
    and r1: "idle (db st1)" "noFaults (db st1)"
    by (auto simp: cur)
  from r1 have k1: "committed (db st1) = primaryTables json swp pid ?t"
    using c1 by (simp add: idle_def)
  from assms(3) have p1: "pid \<in> set (map pr_id (projects (current (db st1))))"
    by (simp add: c1)
  from importSession_ok [OF r1(2) r1(1) p1, of json swp uuid]
  obtain st2 where i2: "importSession json swp pid uuid st1 = (Inr (), st2)"
    and c2: "current (db st2) = primaryTables json swp pid (current (db st1))"
    and r2: "idle (db st2)"
    by blast
  from r2 c2 c1
  have "committed (db st2) = primaryTables json swp pid (primaryTables json swp pid ?t)"
    by (simp add: idle_def)
  then have k2: "rowsOf (committed (db st2)) = rowsOf (committed (db st1))"
    by (simp only: k1 primaryTables_idem)
  show ?thesis
    using i1 i2 k1 k2 primaryTables_unique [of ?t json swp pid]
      primaryTables_rows [of _ swp json pid ?t]
      primaryTables_no_stale [of swp _ json pid ?t]
    by (intro exI [of _ st1] exI [of _ st2]) (simp only: simp_thms, blast)
qed

text \<open>
  The scenario of the specification, twice: the two-message session into the store that
  holds its project, and again.
\<close>

lemma importSession_twice_example:
  "fst (importSession exampleJson twoMessages 1 exampleUuid projectStores) = Inr ()
   \<and> fst (importSession exampleJson twoMessages 1 exampleUuid
            (snd (importSession exampleJson twoMessages 1 exampleUuid projectStores))) = Inr ()
   \<and> map (\<lambda>r. (mr_id r, mr_sequence r, mr_content_json r))
       (messages (committed (db (snd (importSession exampleJson twoMessages 1 exampleUuid
          (snd (importSession exampleJson twoMessages 1 exampleUuid projectStores)))))))
     = [(1, 0, ''fix bug''), (2, 1, ''done'')]
   \<and> messagesSeq (committed (db (snd (importSession exampleJson twoMessages 1 exampleUuid
          (snd (importSession exampleJson twoMessages 1 exampleUuid projectStores)))))) = 4"
  by code_simp

text \<open>
  C1, at a failing input: a session without messages. The store holds the project and
  the session with one message row (sequence 0); the session, now empty, is imported
  twice. Both imports succeed, the second leaves the rows as the first left them, and
  the row is still there: a stale row of the session, beyond its (absent) last message,
  which a single fresh import of the session would not produce. The guard
  \<^verbatim>\<open>lastSequence >= 0\<close> skips the delete that the comment above it announces.
\<close>

theorem import_empty_twice_keeps_stale_row:
  "fst (importSession exampleJson noMessages 1 exampleUuid storedOnce) = Inr ()
   \<and> fst (importSession exampleJson noMessages 1 exampleUuid
            (snd (importSession exampleJson noMessages 1 exampleUuid storedOnce))) = Inr ()
   \<and> sessionRowId exampleJson noMessages 1 (committed (db storedOnce)) = 1
   \<and> sd_messages (swp_session noMessages) = []
   \<and> map (\<lambda>r. (mr_sequence r, mr_content_json r))
        (sessionMessages 1
           (committed (db (snd (importSession exampleJson noMessages 1 exampleUuid
              (snd (importSession exampleJson noMessages 1 exampleUuid storedOnce)))))))
     = [(0, ''fix bug'')]
   \<and> sessionMessages 1
        (committed (db (snd (importSession exampleJson noMessages 1 exampleUuid projectStores))))
     = []"
  by code_simp

subsection \<open>Truncation on re-import\<close>

text \<open>
  When every message of the re-imported session already has its row, the session's
  rows afterwards are the old rows with a sequence below the new length, in their
  places and with their ids, each overwritten by its card; the rows from the new length
  on are gone. This needs at least one message.
\<close>

lemma mr_id_applyCards: "mr_id (applyCards f cards r) = mr_id r"
  by (simp add: applyCards_def mr_id_update split: option.splits)

lemma insertedRows_none:
  assumes "\<forall>c \<in> set cards. \<exists>r \<in> set (messages t). messageConflict c r"
  shows "insertedRows f cards t = []"
proof (rule ccontr)
  assume "insertedRows f cards t \<noteq> []"
  then obtain n where "n \<in> set (insertedRows f cards t)"
    by (cases "insertedRows f cards t") auto
  from insertedRows_origin [OF this] assms show False by blast
qed

lemma primaryTables_truncates:
  assumes some: "sd_messages (swp_session swp) \<noteq> []"
    and rows: "\<forall>i < length (sd_messages (swp_session swp)).
                 \<exists>r \<in> set (messages t). messageKey r = (sessionRowId json swp pid t, i)"
  shows "sessionMessages (sessionRowId json swp pid t) (primaryTables json swp pid t)
           = map (applyCards (stringifyContent json) (sessionCards json swp pid t))
               (filter (\<lambda>r. mr_sequence r < length (sd_messages (swp_session swp)))
                  (sessionMessages (sessionRowId json swp pid t) t))"
proof -
  let ?sid = "sessionRowId json swp pid t"
  let ?cards = "sessionCards json swp pid t"
  let ?f = "stringifyContent json"
  let ?t1 = "snd (sessionsUpsertRows (sessionData json swp pid) t)"
  let ?M = "length (sd_messages (swp_session swp))"
  have ne: "?cards \<noteq> []" using some length_sessionCards [of json swp pid t] by auto
  have len: "length ?cards = ?M" by (rule length_sessionCards)
  have "\<forall>c \<in> set ?cards. \<exists>r \<in> set (messages ?t1). messageConflict c r"
  proof
    fix c assume c: "c \<in> set ?cards"
    from sessionCards_key [OF c] rows
    obtain r where "r \<in> set (messages t)" "messageKey r = (?sid, rm_sequence c)"
      by blast
    then show "\<exists>r \<in> set (messages ?t1). messageConflict c r"
      using sessionCards_key [OF c] by (auto simp: messageConflict_key)
  qed
  then have "insertedRows ?f ?cards ?t1 = []" by (rule insertedRows_none)
  then have shape: "messages (upsertAll ?f ?cards ?t1) = map (applyCards ?f ?cards) (messages t)"
    using upsertAll_shape [OF distinct_sessionCards, of ?f json swp pid t ?t1] by simp
  have key: "mr_session_id (applyCards ?f ?cards r) = mr_session_id r
           \<and> mr_sequence (applyCards ?f ?cards r) = mr_sequence r" for r
    using messageKey_applyCards [of ?f ?cards r] by (simp add: messageKey_def)
  show ?thesis
    using ne
    by (simp add: sessionMessages_def primaryTables_messages Let_def shape len filter_map
        o_def key not_le conj_commute cong: conj_cong)
qed

text \<open>
  C4, at a failing input: the two-message session is imported into the store that holds
  its project and then re-imported with no messages (N = 2, M = 0). Both rows are still
  there.
\<close>

theorem reimport_without_messages_keeps_rows:
  "fst (importSession exampleJson noMessages 1 exampleUuid
          (snd (importSession exampleJson twoMessages 1 exampleUuid projectStores))) = Inr ()
   \<and> map (\<lambda>r. (mr_id r, mr_sequence r, mr_content_json r))
       (messages (committed (db (snd (importSession exampleJson noMessages 1 exampleUuid
          (snd (importSession exampleJson twoMessages 1 exampleUuid projectStores)))))))
     = [(1, 0, ''fix bug''), (2, 1, ''done'')]
   \<and> map se_content
       (committed (searchDb (snd (importSession exampleJson noMessages 1 exampleUuid
          (snd (importSession exampleJson twoMessages 1 exampleUuid projectStores))))))
     = []"
  by code_simp

text \<open>The scenario of the specification: re-import with one message of the two.\<close>

lemma reimport_with_one_message:
  "map (\<lambda>r. (mr_id r, mr_sequence r, mr_content_json r))
     (messages (committed (db (snd (importSession exampleJson oneMessage 1 exampleUuid
        (snd (importSession exampleJson twoMessages 1 exampleUuid projectStores)))))))
   = [(1, 0, ''fix bug'')]
   \<and> map se_content
       (committed (searchDb (snd (importSession exampleJson oneMessage 1 exampleUuid
          (snd (importSession exampleJson twoMessages 1 exampleUuid projectStores))))))
     = [''fix bug'']"
  by code_simp

subsection \<open>Failures of the search index\<close>



subsection \<open>Rows that an import leaves alone\<close>

lemma fold_max_ge: "a \<le> fold max ids (a :: nat)"
  by (induction ids arbitrary: a) (auto intro: order_trans [OF max.cobounded2])

lemma fold_max_mem: "x \<in> set ids \<Longrightarrow> x \<le> fold max ids (a :: nat)"
proof (induction ids arbitrary: a)
  case Nil
  then show ?case by simp
next
  case (Cons y ys)
  show ?case
  proof (cases "x = y")
    case True
    have "y \<le> max y a" by simp
    also have "\<dots> \<le> fold max ys (max y a)" by (rule fold_max_ge)
    finally show ?thesis using True by simp
  next
    case False
    with Cons show ?thesis by simp
  qed
qed

lemma nextId_fresh: "nextId seq ids \<notin> set ids"
proof
  assume "nextId seq ids \<in> set ids"
  from fold_max_mem [OF this, of seq] show False by (simp add: nextId_def)
qed

lemma map_sn_id_update:
  "map sn_id (map (\<lambda>r. if sessionConflict s r then updateSessionRow s r else r) rows)
     = map sn_id rows"
  by (induction rows) (simp_all add: updateSessionRow_def)

lemma sessionsUpsertRows_distinct:
  assumes "distinct (map sn_id (sessions t))"
  shows "distinct (map sn_id (sessions (snd (sessionsUpsertRows s t))))"
proof (cases "find (sessionConflict s) (sessions t)")
  case None
  then show ?thesis
    using assms nextId_fresh [of "sessionsSeq t" "map sn_id (sessions t)"]
    by (simp add: sessionsUpsertRows_def Let_def insertedSessionRow_def)
next
  case (Some e)
  then have "sessions (snd (sessionsUpsertRows s t))
      = map (\<lambda>r. if sessionConflict s r then updateSessionRow s r else r) (sessions t)"
    by (simp add: sessionsUpsertRows_def)
  then show ?thesis using assms by (simp only: map_sn_id_update)
qed








lemma primaryTables_uniqueKeys:
  "uniqueKeys t \<Longrightarrow> uniqueKeys (primaryTables json s pid t)"
  by (simp add: uniqueKeys_def primaryTables_sessions sessionsUpsertRows_distinct
      primaryTables_unique)


subsection \<open>A persisted session\<close>







subsection \<open>The project rows\<close>

lemma projectsUpsert_rows [simp]:
  "sessions (snd (projectsUpsert q t)) = sessions t"
  "messages (snd (projectsUpsert q t)) = messages t"
  by (simp_all add: projectsUpsert_def Let_def split: option.splits)

lemma map_pr_id_update:
  "map pr_id (map (\<lambda>r. if C r then r\<lparr>pr_name := a, pr_path := b, pr_updated_at := c\<rparr> else r) rows)
     = map pr_id rows"
  by (induction rows) simp_all

lemma projectsUpsert_update:
  "find (\<lambda>r. pr_project_uuid r = p_projectUuid q) (projects t) = Some e \<Longrightarrow>
   projects (snd (projectsUpsert q t))
     = map (\<lambda>r. if pr_project_uuid r = p_projectUuid q
                 then r\<lparr>pr_name := p_name q, pr_path := orNull (p_path q),
                        pr_updated_at := p_updatedAt q\<rparr>
                 else r) (projects t)
   \<and> fst (projectsUpsert q t) = pr_id e"
  by (simp add: projectsUpsert_def Let_def)

lemma projectsUpsert_insert:
  "find (\<lambda>r. pr_project_uuid r = p_projectUuid q) (projects t) = None \<Longrightarrow>
   projects (snd (projectsUpsert q t))
     = projects t @
         [\<lparr>pr_id = nextId (projectsSeq t) (map pr_id (projects t)),
           pr_project_uuid = p_projectUuid q, pr_name = p_name q,
           pr_path = orNull (p_path q), pr_created_at = p_createdAt q,
           pr_updated_at = p_updatedAt q\<rparr>]
   \<and> fst (projectsUpsert q t) = nextId (projectsSeq t) (map pr_id (projects t))"
  by (simp add: projectsUpsert_def Let_def)

lemma projectsUpsert_distinct:
  assumes "distinct (map pr_id (projects t))"
  shows "distinct (map pr_id (projects (snd (projectsUpsert q t))))"
proof (cases "find (\<lambda>r. pr_project_uuid r = p_projectUuid q) (projects t)")
  case None
  from projectsUpsert_insert [OF None] assms
    nextId_fresh [of "projectsSeq t" "map pr_id (projects t)"]
  show ?thesis by simp
next
  case (Some e)
  from projectsUpsert_update [OF Some] assms show ?thesis
    by (simp only: map_pr_id_update)
qed

lemma projectsUpsert_uniqueKeys:
  "uniqueKeys t \<Longrightarrow> uniqueKeys (snd (projectsUpsert q t))"
  by (simp add: uniqueKeys_def projectsUpsert_distinct uniqueMessageKeys_def)








subsection \<open>The sessions of one project, on the tables\<close>

lemma fold_primaryTables_projects [simp]:
  "projects (fold (\<lambda>s. primaryTables json s pid) found t) = projects t"
  by (induction found arbitrary: t) simp_all

lemma fold_primaryTables_uniqueKeys:
  "uniqueKeys t \<Longrightarrow> uniqueKeys (fold (\<lambda>s. primaryTables json s pid) found t)"
  by (induction found arbitrary: t) (simp_all add: primaryTables_uniqueKeys)



subsection \<open>One project, and the run, on the tables\<close>

lemma groupTables_uniqueKeys:
  "uniqueKeys t \<Longrightarrow> uniqueKeys (groupTables json parseDate g t)"
  by (simp add: groupTables_def importedTables_def fold_primaryTables_uniqueKeys
      projectsUpsert_uniqueKeys)




lemma runTables_uniqueKeys:
  "uniqueKeys t \<Longrightarrow> uniqueKeys (runTables json parseDate groups t)"
  unfolding runTables_def
  by (induction groups arbitrary: t) (simp_all add: groupTables_uniqueKeys)




subsection \<open>\<^verbatim>\<open>importAll\<close>: the adapters, the grouping and the order of the projects\<close>




















subsection \<open>The fault oracle of a connection never changes\<close>

lemma exec_failAt: "exec f d = (r, d') \<Longrightarrow> failAt d' = failAt d"
  by (auto simp: exec_def split: if_splits prod.splits)

lemma beginTransaction_failAt: "beginTransaction d = (r, d') \<Longrightarrow> failAt d' = failAt d"
  by (auto simp: beginTransaction_def split: if_splits)

lemma commitTransaction_failAt: "commitTransaction d = (r, d') \<Longrightarrow> failAt d' = failAt d"
  by (auto simp: commitTransaction_def split: if_splits)

lemma rollbackTransaction_failAt: "failAt (snd (rollbackTransaction d)) = failAt d"
  by (simp add: rollbackTransaction_def)

lemma insertSearchEntries_failAt:
  "insertSearchEntries swp projectUuid i cards s = (r, s') \<Longrightarrow> failAt s' = failAt s"
proof (induction cards arbitrary: i s)
  case Nil
  then show ?case by simp
next
  case (Cons c cs)
  let ?ins = "if extractText (rm_content c) \<noteq> []
      then exec (searchInsert
             \<lparr> se_content = extractText (rm_content c),
               se_sessionId = sd_sessionId (swp_session swp),
               se_projectId = projectUuid,
               se_cardType = rm_cardType c,
               se_sessionTitle = sessionTitle swp,
               se_projectName = swp_projectName swp,
               se_timestamp = rm_timestamp c \<rparr>) s
      else (Inr (), s)"
  obtain r1 s1 where i1: "?ins = (r1, s1)" by (cases ?ins)
  have st1: "failAt s1 = failAt s"
    using i1 exec_failAt by (auto split: if_splits)
  show ?case
  proof (cases r1)
    case (Inl e)
    then show ?thesis using Cons.prems i1 st1 by (simp add: Let_def)
  next
    case (Inr u)
    show ?thesis
    proof (cases "(i + 1) mod SEARCH_BATCH_SIZE = 0")
      case False
      then have "insertSearchEntries swp projectUuid (Suc i) cs s1 = (r, s')"
        using Cons.prems i1 Inr by (simp add: Let_def)
      then show ?thesis using Cons.IH st1 by simp
    next
      case True
      obtain r2 s2 where c: "commitTransaction s1 = (r2, s2)" by (cases "commitTransaction s1")
      have st2: "failAt s2 = failAt s"
        using commitTransaction_failAt [OF c] st1 by simp
      obtain r3 s3 where b: "beginTransaction s2 = (r3, s3)" by (cases "beginTransaction s2")
      have st3: "failAt s3 = failAt s"
        using beginTransaction_failAt [OF b] st2 by simp
      show ?thesis
      proof (cases r2)
        case (Inl e)
        then show ?thesis using Cons.prems i1 Inr True c st2 by (simp add: Let_def)
      next
        case r2: (Inr v)
        show ?thesis
        proof (cases r3)
          case (Inl e)
          then show ?thesis using Cons.prems i1 Inr True c r2 b st3 by (simp add: Let_def)
        next
          case r3: (Inr w)
          then have "insertSearchEntries swp projectUuid (Suc i) cs s3 = (r, s')"
            using Cons.prems i1 Inr True c r2 b by (simp add: Let_def)
          then show ?thesis using Cons.IH st3 by simp
        qed
      qed
    qed
  qed
qed

lemma searchWrites_failAt:
  assumes "searchWrites swp projectUuid cards s = (r, s')"
  shows "failAt s' = failAt s"
proof -
  let ?del = "exec (searchDeleteBySessionId (sd_sessionId (swp_session swp)))"
  obtain r1 s1 where e1: "?del s = (r1, s1)" by (cases "?del s")
  have st1: "failAt s1 = failAt s" using exec_failAt [OF e1] .
  obtain r2 s2 where e2: "beginTransaction s1 = (r2, s2)" by (cases "beginTransaction s1")
  have st2: "failAt s2 = failAt s" using beginTransaction_failAt [OF e2] st1 by simp
  obtain r3 s3 where e3: "insertSearchEntries swp projectUuid 0 cards s2 = (r3, s3)"
    by (cases "insertSearchEntries swp projectUuid 0 cards s2")
  have st3: "failAt s3 = failAt s" using insertSearchEntries_failAt [OF e3] st2 by simp
  obtain r4 s4 where e4: "commitTransaction s3 = (r4, s4)" by (cases "commitTransaction s3")
  have st4: "failAt s4 = failAt s" using commitTransaction_failAt [OF e4] st3 by simp
  from assms e1 e2 e3 e4 st1 st2 st3 st4 show ?thesis
    by (auto simp: searchWrites_def andThen_def split: sum.splits)
qed

lemma importSession_search_failAt:
  "failAt (searchDb (snd (importSession json swp projectId projectUuid st))) = failAt (searchDb st)"
proof (cases "beginTransaction (db st)")
  case (Pair r0 d1)
  show ?thesis
  proof (cases r0)
    case (Inl e)
    with Pair show ?thesis by (simp add: importSession_def)
  next
    case (Inr u)
    obtain r1 d2 where p: "primaryWrites json swp projectId d1 = (r1, d2)"
      by (cases "primaryWrites json swp projectId d1")
    show ?thesis
    proof (cases r1)
      case (Inl e)
      with Pair Inr p show ?thesis by (simp add: importSession_def split: prod.splits sum.splits)
    next
      case cards: (Inr cards)
      obtain r2 s1 where w: "searchWrites swp projectUuid cards (searchDb st) = (r2, s1)"
        by (cases "searchWrites swp projectUuid cards (searchDb st)")
      from searchWrites_failAt [OF w] Pair Inr p cards w show ?thesis
        by (cases r2) (simp_all add: importSession_def rollbackTransaction_failAt)
    qed
  qed
qed

lemma importSession_search_noFaults:
  "noFaults (searchDb st) \<Longrightarrow>
   noFaults (searchDb (snd (importSession json swp projectId projectUuid st)))"
  by (simp add: noFaults_def importSession_search_failAt)

subsection \<open>The sessions of one project\<close>












subsection \<open>The projects\<close>













subsection \<open>The closing statistics\<close>



subsection \<open>A run of \<^verbatim>\<open>importAll\<close>\<close>




















subsection \<open>What \<^verbatim>\<open>importAll\<close> returns and what it persists\<close>















end
